theory Spec2Isabelle
  imports Main "HOL-Library.AList"
begin

section \<open>Python dictionaries\<close>

text \<open>
  A Python \<open>dict\<close> keeps its keys in insertion order and holds each key once. It is
  modelled as an association list: \<open>d[k] = v\<close> overwrites the entry of \<open>k\<close> where it
  stands, or appends a new entry at the end.
\<close>

type_synonym ('k, 'v) dict = "('k \<times> 'v) list"

definition dict_get :: "('k, 'v) dict \<Rightarrow> 'k \<Rightarrow> 'v option" where
  "dict_get d k = map_of d k"

definition dict_set :: "'k \<Rightarrow> 'v \<Rightarrow> ('k, 'v) dict \<Rightarrow> ('k, 'v) dict" where
  "dict_set k v d = AList.update k v d"

definition get_or :: "('k, 'v) dict \<Rightarrow> 'k \<Rightarrow> 'v \<Rightarrow> 'v" where
  \<comment> \<open>\<open>d.get(k, default)\<close>\<close>
  "get_or d k dflt = (case dict_get d k of None \<Rightarrow> dflt | Some v \<Rightarrow> v)"

definition setdefault :: "'k \<Rightarrow> 'v \<Rightarrow> ('k, 'v) dict \<Rightarrow> ('k, 'v) dict" where
  \<comment> \<open>\<open>d.setdefault(k, v)\<close>: stores \<open>v\<close> only when \<open>k\<close> is absent\<close>
  "setdefault k v d = (case dict_get d k of None \<Rightarrow> dict_set k v d | Some _ \<Rightarrow> d)"

definition keys :: "('k, 'v) dict \<Rightarrow> 'k list" where
  "keys d = map fst d"

section \<open>The captioning service (docker/app/florence_api.py)\<close>

subsection \<open>Module configuration\<close>

datatype dtype =
  Float16 | BFloat16 | Float32 | Float64
  | UInt8 | Int8 | Int16 | Int32 | Int64 | Bool8

fun is_floating_point_dtype :: "dtype \<Rightarrow> bool" where
  "is_floating_point_dtype Float16 = True"
| "is_floating_point_dtype BFloat16 = True"
| "is_floating_point_dtype Float32 = True"
| "is_floating_point_dtype Float64 = True"
| "is_floating_point_dtype _ = False"

definition DEFAULT_MODEL_ID :: string where
  "DEFAULT_MODEL_ID = ''microsoft/Florence-2-base''"

definition MODEL_ID :: "string option \<Rightarrow> string" where
  \<comment> \<open>\<open>os.getenv("FLORENCE_MODEL_ID", "microsoft/Florence-2-base")\<close>; the argument is
      the value of the environment variable, \<open>None\<close> when it is not set\<close>
  "MODEL_ID env = (case env of None \<Rightarrow> DEFAULT_MODEL_ID | Some v \<Rightarrow> v)"

definition DEFAULT_TASK :: string where
  "DEFAULT_TASK = ''<CAPTION>''"

definition DEVICE :: "bool \<Rightarrow> string" where
  \<comment> \<open>the argument is \<open>torch.cuda.is_available()\<close>\<close>
  "DEVICE cuda_available = (if cuda_available then ''cuda'' else ''cpu'')"

definition DTYPE :: "bool \<Rightarrow> dtype" where
  "DTYPE cuda_available = (if DEVICE cuda_available = ''cuda'' then Float16 else Float32)"

subsection \<open>Tensors and the alignment pass\<close>

text \<open>
  A tensor is described by what the pass reads and writes: the device it lives on, its
  element type and its shape.
\<close>

record tensor =
  t_device :: string
  t_dtype :: dtype
  t_shape :: "nat list"

definition is_floating_point :: "tensor \<Rightarrow> bool" where
  "is_floating_point v = is_floating_point_dtype (t_dtype v)"

definition to_device :: "string \<Rightarrow> tensor \<Rightarrow> tensor" where
  \<comment> \<open>\<open>value.to(device=d)\<close>\<close>
  "to_device d v = v\<lparr>t_device := d\<rparr>"

definition to_device_dtype :: "string \<Rightarrow> dtype \<Rightarrow> tensor \<Rightarrow> tensor" where
  \<comment> \<open>\<open>value.to(device=d, dtype=p)\<close>\<close>
  "to_device_dtype d p v = v\<lparr>t_device := d, t_dtype := p\<rparr>"

type_synonym tensor_bundle = "(string, tensor) dict"

definition cast_value :: "bool \<Rightarrow> tensor \<Rightarrow> tensor" where
  \<comment> \<open>the body of the loop, for one value\<close>
  "cast_value cuda v =
     (if is_floating_point v then to_device_dtype (DEVICE cuda) (DTYPE cuda) v
      else to_device (DEVICE cuda) v)"

fun cast_loop :: "bool \<Rightarrow> (string \<times> tensor) list \<Rightarrow> tensor_bundle \<Rightarrow> tensor_bundle" where
  \<comment> \<open>\<open>for key, value in inputs.items(): cast_inputs[key] = ...\<close>\<close>
  "cast_loop cuda [] cast_inputs = cast_inputs"
| "cast_loop cuda ((key, v) # rest) cast_inputs =
     cast_loop cuda rest (dict_set key (cast_value cuda v) cast_inputs)"

definition align_inputs :: "bool \<Rightarrow> tensor_bundle \<Rightarrow> tensor_bundle" where
  \<comment> \<open>\<open>cast_inputs = {}\<close>, the loop, \<open>inputs = cast_inputs\<close>\<close>
  "align_inputs cuda inputs = cast_loop cuda inputs []"

subsection \<open>The health probe\<close>

definition health :: "string option \<Rightarrow> bool \<Rightarrow> (string, string) dict" where
  \<comment> \<open>\<open>return {"status": "ok", "model_id": MODEL_ID, "device": DEVICE}\<close>\<close>
  "health env cuda =
     [(''status'', ''ok''), (''model_id'', MODEL_ID env), (''device'', DEVICE cuda)]"

subsection \<open>The caption endpoint\<close>

text \<open>
  Exceptions are values. \<open>Exception msg\<close> stands for any exception raised inside one
  of the libraries the endpoint calls, with \<open>msg\<close> what \<open>str(ex)\<close> gives; the other
  constructors are the ones Python itself raises in the code modelled here.
\<close>

datatype exn = Exception string | KeyError string | IndexError | TypeError

fun str :: "exn \<Rightarrow> string" where
  "str (Exception msg) = msg"
| "str (KeyError k) = [CHR 0x27] @ k @ [CHR 0x27]"
| "str IndexError = ''list index out of range''"
| "str TypeError = [CHR 0x27] @ ''NoneType'' @ [CHR 0x27] @ '' object does not support item assignment''"

record image =
  img_mode :: string
  img_size :: "nat \<times> nat"

text \<open>A keyword argument of the call to \<open>model.generate\<close>.\<close>

datatype arg = TensorArg tensor | IntArg int | BoolArg bool

text \<open>
  The libraries behind the endpoint are parameters of the model: each is a function
  that returns its result or the exception it raises. \<open>image_open_rgb\<close> stands for
  \<open>Image.open(io.BytesIO(payload)).convert("RGB")\<close>, \<open>processor_call\<close> for
  \<open>processor(text=task, images=image, return_tensors="pt")\<close>, and \<open>model_generate\<close>
  takes the keyword arguments in the order the call gives them.
\<close>

record 'r engine =
  image_open_rgb :: "string \<Rightarrow> exn + image"
  processor_call :: "string \<Rightarrow> image \<Rightarrow> exn + tensor_bundle"
  model_generate :: "(string, arg) dict \<Rightarrow> exn + int list list"
  batch_decode :: "int list list \<Rightarrow> bool \<Rightarrow> exn + string list"
  post_process_generation :: "string \<Rightarrow> string \<Rightarrow> nat \<times> nat \<Rightarrow> exn + 'r"

text \<open>
  A request: what \<open>await file.read()\<close> yields (the payload, or the exception the read
  raises), and the \<open>task\<close> form field, \<open>None\<close> when the client left it out.
\<close>

record request =
  req_file :: "exn + string"
  req_task :: "string option"

text \<open>The calls the endpoint makes, in the order it makes them.\<close>

datatype event =
  FileRead
  | ImageOpen string
  | Processor string image
  | Generate "(string, arg) dict"
  | BatchDecode "int list list" bool
  | PostProcess string string "nat \<times> nat"

datatype 'r field = Str string | Parsed 'r

datatype 'r outcome =
  Returned "(string, 'r field) dict"
  | HTTPException nat string
  | Raised exn

definition generate_kwargs :: "tensor \<Rightarrow> tensor \<Rightarrow> (string, arg) dict" where
  "generate_kwargs input_ids pixel_values =
     [(''input_ids'', TensorArg input_ids),
      (''pixel_values'', TensorArg pixel_values),
      (''max_new_tokens'', IntArg 256),
      (''do_sample'', BoolArg False),
      (''num_beams'', IntArg 3)]"

definition invalid_image :: "exn \<Rightarrow> 'r outcome" where
  \<comment> \<open>\<open>raise HTTPException(status_code=400, detail=f"Invalid image: {ex}")\<close>\<close>
  "invalid_image ex = HTTPException 400 (''Invalid image: '' @ str ex)"

definition post_process ::
  "'r engine \<Rightarrow> string option \<Rightarrow> string \<Rightarrow> image \<Rightarrow> int list list \<Rightarrow> event list
   \<Rightarrow> event list \<times> 'r outcome" where
  \<comment> \<open>lines 55 to 62: decode, parse, build the response\<close>
  "post_process eng env task img generated_ids tr =
     (let tr1 = tr @ [BatchDecode generated_ids False] in
      case batch_decode eng generated_ids False of
        Inl ex \<Rightarrow> (tr1, Raised ex)
      | Inr texts \<Rightarrow>
          (case texts of
             [] \<Rightarrow> (tr1, Raised IndexError)
           | generated_text # _ \<Rightarrow>
               (let tr2 = tr1 @ [PostProcess generated_text task (img_size img)] in
                case post_process_generation eng generated_text task (img_size img) of
                  Inl ex \<Rightarrow> (tr2, Raised ex)
                | Inr parsed \<Rightarrow>
                    (tr2, Returned [(''model_id'', Str (MODEL_ID env)),
                                    (''task'', Str task),
                                    (''result'', Parsed parsed)]))))"

definition generate_step ::
  "'r engine \<Rightarrow> string option \<Rightarrow> string \<Rightarrow> image \<Rightarrow> tensor_bundle \<Rightarrow> event list
   \<Rightarrow> event list \<times> 'r outcome" where
  \<comment> \<open>lines 47 to 53; \<open>inputs[...]\<close> raises \<open>KeyError\<close> on a missing key\<close>
  "generate_step eng env task img inputs tr =
     (case dict_get inputs ''input_ids'' of
        None \<Rightarrow> (tr, Raised (KeyError ''input_ids''))
      | Some input_ids \<Rightarrow>
          (case dict_get inputs ''pixel_values'' of
             None \<Rightarrow> (tr, Raised (KeyError ''pixel_values''))
           | Some pixel_values \<Rightarrow>
               (let kwargs = generate_kwargs input_ids pixel_values;
                    tr1 = tr @ [Generate kwargs] in
                case model_generate eng kwargs of
                  Inl ex \<Rightarrow> (tr1, Raised ex)
                | Inr generated_ids \<Rightarrow> post_process eng env task img generated_ids tr1)))"

definition task_of :: "request \<Rightarrow> string" where
  \<comment> \<open>the parameter \<open>task: str = Form(DEFAULT_TASK)\<close>: the framework binds the default
      when the form field is missing and also when its value is the empty string\<close>
  "task_of req =
     (case req_task req of
        None \<Rightarrow> DEFAULT_TASK
      | Some t \<Rightarrow> if t = [] then DEFAULT_TASK else t)"

definition caption ::
  "'r engine \<Rightarrow> string option \<Rightarrow> bool \<Rightarrow> request \<Rightarrow> event list \<times> 'r outcome" where
  "caption eng env cuda req =
     (let task = task_of req in
      case req_file req of
        Inl ex \<Rightarrow> ([FileRead], invalid_image ex)
      | Inr payload \<Rightarrow>
          (case image_open_rgb eng payload of
             Inl ex \<Rightarrow> ([FileRead, ImageOpen payload], invalid_image ex)
           | Inr img \<Rightarrow>
               (let tr = [FileRead, ImageOpen payload, Processor task img] in
                case processor_call eng task img of
                  Inl ex \<Rightarrow> (tr, Raised ex)
                | Inr inputs \<Rightarrow>
                    generate_step eng env task img (align_inputs cuda inputs) tr)))"

fun is_tensorize :: "event \<Rightarrow> bool" where
  "is_tensorize (Processor _ _) = True"
| "is_tensorize _ = False"

fun is_generate :: "event \<Rightarrow> bool" where
  "is_generate (Generate _) = True"
| "is_generate _ = False"


subsection \<open>Loading the module\<close>

text \<open>
  Lines 16 to 22 run when the module is imported, before any route is served:
  the processor and the model are loaded from \<open>MODEL_ID\<close> and the model is moved to
  \<open>DEVICE\<close>. \<open>from_pretrained\<close> takes the identifier as a local directory or as a
  repository of the hub; the empty identifier is neither, and the library raises on it
  before it looks anything up. What the lookups and the move answer (\<open>None\<close> when they
  succeed, the exception otherwise) is a parameter.
\<close>

record hub =
  processor_lookup :: "string \<Rightarrow> exn option"
  model_lookup :: "string \<Rightarrow> exn option"
  move_error :: "string \<Rightarrow> exn option"

definition from_pretrained :: "(string \<Rightarrow> exn option) \<Rightarrow> string \<Rightarrow> exn option" where
  "from_pretrained lookup name =
     (if name = [] then Some (Exception ''Incorrect path_or_model_id'') else lookup name)"

definition module_load :: "hub \<Rightarrow> string option \<Rightarrow> bool \<Rightarrow> exn option" where
  \<comment> \<open>\<open>None\<close> when the import went through, so that the routes exist\<close>
  "module_load h env cuda =
     (case from_pretrained (processor_lookup h) (MODEL_ID env) of
        Some e \<Rightarrow> Some e
      | None \<Rightarrow>
          (case from_pretrained (model_lookup h) (MODEL_ID env) of
             Some e \<Rightarrow> Some e
           | None \<Rightarrow> move_error h (DEVICE cuda)))"

subsection \<open>Requests served by one event loop\<close>

text \<open>
  \<open>caption\<close> is a coroutine (\<open>async def\<close>, line 30) and \<open>await file.read()\<close> on line
  32 is its only \<open>await\<close>: every call after it, \<open>model.generate\<close> included, is an
  ordinary blocking call. The event loop that serves the requests against the one
  loaded model runs one coroutine at a time and changes to another one only where the
  running one awaits or ends. So a request is handled in two uninterrupted pieces: the
  start, up to the \<open>await\<close>, and the rest.
\<close>

definition caption_start :: "event list" where
  "caption_start = [FileRead]"

definition caption_resume ::
  "'r engine \<Rightarrow> string option \<Rightarrow> bool \<Rightarrow> request \<Rightarrow> event list \<times> 'r outcome" where
  \<comment> \<open>the calls made after the \<open>await\<close>, and the outcome\<close>
  "caption_resume eng env cuda req =
     (tl (fst (caption eng env cuda req)), snd (caption eng env cuda req))"

datatype phase = NotStarted | AtAwait | Finished

text \<open>
  What happens on the server, in the order of time: a call made on behalf of a request
  (requests are numbered by their position in the list of requests), or the reply to it.
\<close>

datatype 'r server_event = Call nat event | Reply nat "'r outcome"

fun owner :: "'r server_event \<Rightarrow> nat" where
  "owner (Call i _) = i"
| "owner (Reply i _) = i"

text \<open>
  The schedule is the order in which the event loop picks the coroutines: each entry
  lets the coroutine of that request run up to its \<open>await\<close> or, picked again, to its
  end. Any list is a schedule; an entry for a request that has ended or does not exist
  does nothing.
\<close>

fun event_loop ::
  "'r engine \<Rightarrow> string option \<Rightarrow> bool \<Rightarrow> request list \<Rightarrow> nat list \<Rightarrow> (nat \<Rightarrow> phase)
   \<Rightarrow> 'r server_event list" where
  "event_loop eng env cuda reqs [] ph = []"
| "event_loop eng env cuda reqs (i # sched) ph =
     (if i < length reqs then
        (case ph i of
           NotStarted \<Rightarrow>
             map (Call i) caption_start
             @ event_loop eng env cuda reqs sched (ph(i := AtAwait))
         | AtAwait \<Rightarrow>
             map (Call i) (fst (caption_resume eng env cuda (reqs ! i)))
             @ Reply i (snd (caption_resume eng env cuda (reqs ! i)))
             # event_loop eng env cuda reqs sched (ph(i := Finished))
         | Finished \<Rightarrow> event_loop eng env cuda reqs sched ph)
      else event_loop eng env cuda reqs sched ph)"

definition serve ::
  "'r engine \<Rightarrow> string option \<Rightarrow> bool \<Rightarrow> request list \<Rightarrow> nat list \<Rightarrow> 'r server_event list" where
  "serve eng env cuda reqs sched = event_loop eng env cuda reqs sched (\<lambda>i. NotStarted)"

section \<open>The review tool (review_ui.py)\<close>

subsection \<open>Text, records and files\<close>

text \<open>
  A Python \<open>str\<close> is a sequence of Unicode code points; the captions and paths of the
  review tool are modelled as lists of code points. \<open>u\<close> reads an ASCII literal as
  such a list.
\<close>

type_synonym ustring = "nat list"

definition u :: "string \<Rightarrow> ustring" where
  "u s = map of_char s"

text \<open>
  A caption record is a dictionary from field names to text, as the artifact format has
  it: \<open>{image: path, raw_caption: string, final_caption: string}\<close>.
\<close>

type_synonym caption_record = "(string, ustring) dict"

datatype file_content =
  JsonFile "caption_record list"
  | CsvFile "string list" "ustring list list"

text \<open>
  The module's globals, and the files written so far: each file that was opened for
  writing and written in full, with what was written to it, oldest first.
\<close>

record review_state =
  DATA :: "caption_record list"
  JSON_PATH :: ustring
  CSV_PATH :: ustring
  DATA_DIR :: ustring
  written :: "(ustring \<times> file_content) list"

text \<open>
  What the operating system answers: \<open>os.path.exists\<close>, \<open>time.strftime\<close>, and
  whether writing a file goes through. \<open>write_error os path content\<close> is \<open>None\<close> when
  \<open>open(path, "w")\<close> and the writes of \<open>content\<close> succeed, and the exception raised
  otherwise (a missing directory, a path that may not be written, a full disk).
\<close>

record os_env =
  path_exists :: "ustring \<Rightarrow> bool"
  clock :: string
  write_error :: "ustring \<Rightarrow> file_content \<Rightarrow> exn option"

definition load_captions :: "caption_record list \<Rightarrow> caption_record list" where
  \<comment> \<open>the argument is what \<open>json.load\<close> returned\<close>
  "load_captions data =
     map (\<lambda>item.
            let item1 = setdefault ''raw_caption'' [] item
            in setdefault ''final_caption'' (get_or item1 ''raw_caption'' []) item1)
         data"

definition fieldnames :: "string list" where
  "fieldnames = [''image'', ''raw_caption'', ''final_caption'']"

definition csv_row :: "caption_record \<Rightarrow> ustring list" where
  \<comment> \<open>the dictionary handed to \<open>writer.writerow\<close>, laid out in the order of \<open>fieldnames\<close>\<close>
  "csv_row row =
     [get_or row ''image'' [], get_or row ''raw_caption'' [], get_or row ''final_caption'' []]"

definition save_files ::
  "os_env \<Rightarrow> caption_record list \<Rightarrow> ustring \<Rightarrow> ustring \<Rightarrow> review_state
   \<Rightarrow> review_state \<times> exn option" where
  \<comment> \<open>The JSON file is written first, then the CSV file. Nothing catches an exception:
      the first write that raises ends \<open>save_files\<close>, and the files after it are not
      written. A write that raised leaves no entry in \<open>written\<close>. The result is the
      state reached and the exception raised, if any.\<close>
  "save_files os data json_path csv_path st =
     (case write_error os json_path (JsonFile data) of
        Some e \<Rightarrow> (st, Some e)
      | None \<Rightarrow>
          (let st1 = st\<lparr>written := written st @ [(json_path, JsonFile data)]\<rparr> in
           case write_error os csv_path (CsvFile fieldnames (map csv_row data)) of
             Some e \<Rightarrow> (st1, Some e)
           | None \<Rightarrow>
               (st1\<lparr>written := written st1
                      @ [(csv_path, CsvFile fieldnames (map csv_row data))]\<rparr>,
                None)))"

subsection \<open>Indexing\<close>

definition clamp_index :: "int \<Rightarrow> int \<Rightarrow> int" where
  \<comment> \<open>\<open>n\<close> is the parameter \<open>length\<close>\<close>
  "clamp_index idx n = (if n = 0 then 0 else max 0 (min idx (n - 1)))"

definition len :: "'a list \<Rightarrow> int" where
  "len xs = int (length xs)"

definition py_pos :: "'a list \<Rightarrow> int \<Rightarrow> int" where
  \<comment> \<open>the position a Python index denotes: a negative index counts from the end\<close>
  "py_pos xs i = (if i < 0 then len xs + i else i)"

definition py_index :: "'a list \<Rightarrow> int \<Rightarrow> exn + 'a" where
  \<comment> \<open>\<open>xs[i]\<close>\<close>
  "py_index xs i =
     (let j = py_pos xs i
      in if 0 \<le> j \<and> j < len xs then Inr (xs ! nat j) else Inl IndexError)"

definition get_record :: "review_state \<Rightarrow> int \<Rightarrow> exn + (caption_record option \<times> int)" where
  "get_record st idx =
     (if DATA st = [] then Inr (None, 0)
      else let idx1 = clamp_index idx (len (DATA st))
           in case py_index (DATA st) idx1 of
                Inl e \<Rightarrow> Inl e
              | Inr r \<Rightarrow> Inr (Some r, idx1))"

subsection \<open>What the page shows\<close>

datatype progress = NoRecords | Position int int

definition progress_text :: "review_state \<Rightarrow> int \<Rightarrow> progress" where
  \<comment> \<open>\<open>Position a n\<close> is the text \<open>**a / n**\<close>\<close>
  "progress_text st idx =
     (let n = len (DATA st) in if n = 0 then NoRecords else Position (idx + 1) n)"

text \<open>Paths as on the Linux container: \<open>47\<close> is the slash, \<open>92\<close> the backslash.\<close>

definition isabs :: "ustring \<Rightarrow> bool" where
  "isabs p = (case p of [] \<Rightarrow> False | c # _ \<Rightarrow> c = 47)"

definition basename :: "ustring \<Rightarrow> ustring" where
  "basename p = rev (takeWhile (\<lambda>c. c \<noteq> 47) (rev p))"

definition path_join :: "ustring \<Rightarrow> ustring \<Rightarrow> ustring" where
  "path_join a b =
     (if isabs b then b
      else if a = [] \<or> last a = 47 then a @ b
      else a @ [47] @ b)"

definition backslash_to_slash :: "ustring \<Rightarrow> ustring" where
  \<comment> \<open>\<open>path_value.replace("\\", "/")\<close>\<close>
  "backslash_to_slash p = map (\<lambda>c. if c = 92 then 47 else c) p"

definition display_path :: "os_env \<Rightarrow> review_state \<Rightarrow> ustring option \<Rightarrow> ustring option" where
  "display_path os st path_value =
     (case path_value of
        None \<Rightarrow> None
      | Some p \<Rightarrow>
          if p = [] then Some p
          else if isabs p \<and> path_exists os p then Some p
          else Some (path_join (DATA_DIR st) (basename (backslash_to_slash p))))"

datatype status = NothingToSave | NothingToReview | SessionEnded | Saved string | NoStatus

record outputs =
  out_image :: "ustring option"
  out_caption :: ustring
  out_progress :: progress
  out_status :: status
  out_idx :: int
  out_buttons :: "bool list"

subsection \<open>Navigation\<close>

definition py_isspace :: "nat \<Rightarrow> bool" where
  \<comment> \<open>the code points for which \<open>str.isspace\<close> holds, which are the ones \<open>str.strip()\<close>
      removes: the ASCII controls 9 to 13 and 28 to 31, the space, U+0085, U+00A0,
      U+1680, U+2000 to U+200A, U+2028, U+2029, U+202F, U+205F and U+3000\<close>
  "py_isspace c =
     ((9 \<le> c \<and> c \<le> 13) \<or> (28 \<le> c \<and> c \<le> 32) \<or> c = 0x85 \<or> c = 0xA0 \<or> c = 0x1680
      \<or> (0x2000 \<le> c \<and> c \<le> 0x200A) \<or> c = 0x2028 \<or> c = 0x2029 \<or> c = 0x202F
      \<or> c = 0x205F \<or> c = 0x3000)"

definition strip :: "ustring \<Rightarrow> ustring" where
  "strip s = rev (dropWhile py_isspace (rev (dropWhile py_isspace s)))"

definition store_record :: "caption_record list \<Rightarrow> int \<Rightarrow> caption_record \<Rightarrow> caption_record list" where
  \<comment> \<open>\<open>rec\<close> is the object \<open>DATA[idx]\<close> itself, so assigning to a key of \<open>rec\<close> changes
      the entry of \<open>DATA\<close> at that position\<close>
  "store_record data idx r = data[nat (py_pos data idx) := r]"

definition show_record ::
  "os_env \<Rightarrow> review_state \<Rightarrow> int \<Rightarrow> ustring option \<Rightarrow> status \<Rightarrow> bool \<Rightarrow> exn + outputs" where
  \<comment> \<open>\<open>rec, idx = get_record(idx)\<close> and the tuple returned after it; \<open>dflt\<close> is the
      default of \<open>rec.get("image", ...)\<close>\<close>
  "show_record os st idx dflt stat btn =
     (case get_record st idx of
        Inl e \<Rightarrow> Inl e
      | Inr (None, _) \<Rightarrow> Inl TypeError
      | Inr (Some r, idx1) \<Rightarrow>
          Inr \<lparr>out_image = display_path os st
                  (case dict_get r ''image'' of None \<Rightarrow> dflt | Some p \<Rightarrow> Some p),
               out_caption = get_or r ''final_caption'' [],
               out_progress = progress_text st idx1,
               out_status = stat,
               out_idx = idx1,
               out_buttons = replicate 5 btn\<rparr>)"

text \<open>
  \<open>nav\<close> changes the globals and the files and then returns the new page or raises:
  the result is the state reached, with the page (\<open>Inr\<close>) or the exception (\<open>Inl\<close>).
  The state is the one reached also when an exception ends the call, since the
  assignment to \<open>rec["final_caption"]\<close> and the writes made before it are not undone.
\<close>

definition nav ::
  "os_env \<Rightarrow> string \<Rightarrow> ustring \<Rightarrow> int \<Rightarrow> review_state \<Rightarrow> review_state \<times> (exn + outputs)" where
  "nav os direction caption_text idx st =
     (if DATA st = [] then
        (st, Inr \<lparr>out_image = None, out_caption = [], out_progress = NoRecords,
                  out_status = NothingToSave, out_idx = idx,
                  out_buttons = replicate 5 False\<rparr>)
      else
        case get_record st idx of
          Inl e \<Rightarrow> (st, Inl e)
        | Inr (None, _) \<Rightarrow> (st, Inl TypeError)
        | Inr (Some r, idx1) \<Rightarrow>
            (let data1 = store_record (DATA st) idx1
                           (dict_set ''final_caption'' (strip caption_text) r)
             in case save_files os data1 (JSON_PATH st) (CSV_PATH st) (st\<lparr>DATA := data1\<rparr>) of
                  (st1, Some e) \<Rightarrow> (st1, Inl e)
                | (st1, None) \<Rightarrow>
                    (st1,
                     if direction = ''next'' then
                       show_record os st1 (clamp_index (idx1 + 1) (len data1)) (Some [])
                         (Saved (clock os)) True
                     else if direction = ''prev'' then
                       show_record os st1 (clamp_index (idx1 - 1) (len data1)) (Some [])
                         (Saved (clock os)) True
                     else if direction = ''first'' then
                       show_record os st1 0 (Some []) (Saved (clock os)) True
                     else if direction = ''last'' then
                       show_record os st1 (len data1 - 1) (Some []) (Saved (clock os)) True
                     else if direction = ''end'' then
                       show_record os st1 idx1 None SessionEnded False
                     else
                       show_record os st1 idx1 (Some []) (Saved (clock os)) True)))"

definition nav_first ::
  "os_env \<Rightarrow> ustring \<Rightarrow> int \<Rightarrow> review_state \<Rightarrow> review_state \<times> (exn + outputs)" where
  "nav_first os caption_text idx st = nav os ''first'' caption_text idx st"

definition nav_prev ::
  "os_env \<Rightarrow> ustring \<Rightarrow> int \<Rightarrow> review_state \<Rightarrow> review_state \<times> (exn + outputs)" where
  "nav_prev os caption_text idx st = nav os ''prev'' caption_text idx st"

definition nav_next ::
  "os_env \<Rightarrow> ustring \<Rightarrow> int \<Rightarrow> review_state \<Rightarrow> review_state \<times> (exn + outputs)" where
  "nav_next os caption_text idx st = nav os ''next'' caption_text idx st"

definition nav_last ::
  "os_env \<Rightarrow> ustring \<Rightarrow> int \<Rightarrow> review_state \<Rightarrow> review_state \<times> (exn + outputs)" where
  "nav_last os caption_text idx st = nav os ''last'' caption_text idx st"

definition nav_end ::
  "os_env \<Rightarrow> ustring \<Rightarrow> int \<Rightarrow> review_state \<Rightarrow> review_state \<times> (exn + outputs)" where
  "nav_end os caption_text idx st = nav os ''end'' caption_text idx st"

definition load_first :: "os_env \<Rightarrow> int \<Rightarrow> review_state \<Rightarrow> exn + outputs" where
  "load_first os idx st =
     (if DATA st = [] then
        Inr \<lparr>out_image = None, out_caption = [], out_progress = NoRecords,
             out_status = NothingToReview, out_idx = idx,
             out_buttons = replicate 5 False\<rparr>
      else show_record os st idx (Some []) NoStatus True)"

section \<open>Example data\<close>

definition example_bundle :: tensor_bundle where
  "example_bundle =
     [(''input_ids'', \<lparr>t_device = ''cpu'', t_dtype = Int64, t_shape = [1, 3]\<rparr>),
      (''attention_mask'', \<lparr>t_device = ''cpu'', t_dtype = Int64, t_shape = [1, 3]\<rparr>),
      (''pixel_values'', \<lparr>t_device = ''cpu'', t_dtype = Float32, t_shape = [1, 3, 768, 768]\<rparr>)]"

definition example_image :: image where
  "example_image = \<lparr>img_mode = ''RGB'', img_size = (4, 3)\<rparr>"

definition example_engine :: "string engine" where
  "example_engine =
     \<lparr>image_open_rgb = (\<lambda>payload.
          if payload = ''PNG'' then Inr example_image
          else Inl (Exception ''cannot identify image file'')),
      processor_call = (\<lambda>task img. Inr example_bundle),
      model_generate = (\<lambda>kwargs. Inr [[2, 0, 5, 2]]),
      batch_decode = (\<lambda>ids skip.
          Inr (map (\<lambda>_. if skip then ''a cat'' else ''</s><s>a cat</s>'') ids)),
      post_process_generation = (\<lambda>raw task size. Inr (task @ raw))\<rparr>"


definition example_request :: request where
  "example_request = \<lparr>req_file = Inr ''PNG'', req_task = None\<rparr>"

definition text_request :: request where
  "text_request = \<lparr>req_file = Inr ''hello'', req_task = Some ''<OD>''\<rparr>"

definition od_request :: request where
  "od_request = \<lparr>req_file = Inr ''PNG'', req_task = Some ''<OD>''\<rparr>"

definition empty_task_request :: request where
  \<comment> \<open>the client sends the form field \<open>task\<close> with the empty string as its value\<close>
  "empty_task_request = \<lparr>req_file = Inr ''PNG'', req_task = Some ''''\<rparr>"

definition example_kwargs :: "(string, arg) dict" where
  "example_kwargs =
     [(''input_ids'', TensorArg \<lparr>t_device = ''cuda'', t_dtype = Int64, t_shape = [1, 3]\<rparr>),
      (''pixel_values'',
         TensorArg \<lparr>t_device = ''cuda'', t_dtype = Float16, t_shape = [1, 3, 768, 768]\<rparr>),
      (''max_new_tokens'', IntArg 256),
      (''do_sample'', BoolArg False),
      (''num_beams'', IntArg 3)]"

definition example_hub :: hub where
  "example_hub =
     \<lparr>processor_lookup = (\<lambda>name. None), model_lookup = (\<lambda>name. None),
      move_error = (\<lambda>device. None)\<rparr>"

definition example_data :: "caption_record list" where
  "example_data =
     [[(''image'', u ''/data/a.png''), (''raw_caption'', u ''a cat'')],
      [(''image'', u ''/data/b.png''), (''raw_caption'', u ''a dog''),
       (''final_caption'', u ''a brown dog'')]]"

definition example_state :: review_state where
  "example_state =
     \<lparr>DATA = load_captions example_data, JSON_PATH = u ''/data/captions.json'',
      CSV_PATH = u ''/out/captions.csv'', DATA_DIR = u ''/data'', written = []\<rparr>"

definition example_os :: os_env where
  "example_os =
     \<lparr>path_exists = (\<lambda>p. True), clock = ''12:00:00'', write_error = (\<lambda>path content. None)\<rparr>"

definition no_out_os :: os_env where
  \<comment> \<open>the directory \<open>/out\<close> of the CSV file does not exist\<close>
  "no_out_os =
     example_os\<lparr>write_error := (\<lambda>path content.
        if path = u ''/out/captions.csv''
        then Some (Exception ''No such file or directory'') else None)\<rparr>"

definition example_requests :: "request list" where
  "example_requests = [example_request, od_request]"

definition example_schedule :: "nat list" where
  \<comment> \<open>request 0 starts, request 1 starts and is resumed first, then request 0\<close>
  "example_schedule = [0, 1, 1, 0]"

section \<open>Properties of dictionaries\<close>

lemma dict_set_fresh:
  "k \<notin> set (keys d) \<Longrightarrow> dict_set k v d = d @ [(k, v)]"
  unfolding dict_set_def keys_def by (induction d) auto

section \<open>Properties of the alignment pass\<close>

lemma cast_loop_append:
  "distinct (keys items) \<Longrightarrow> set (keys items) \<inter> set (keys acc) = {} \<Longrightarrow>
   cast_loop cuda items acc = acc @ map (\<lambda>(k, v). (k, cast_value cuda v)) items"
proof (induction items arbitrary: acc)
  case Nil
  then show ?case by simp
next
  case (Cons kv items)
  obtain k v where kv: "kv = (k, v)" by (cases kv)
  from Cons.prems kv have fresh: "k \<notin> set (keys acc)"
    by (auto simp: keys_def)
  from Cons.prems kv have d: "distinct (keys items)"
    and disj: "set (keys items) \<inter> set (keys (acc @ [(k, cast_value cuda v)])) = {}"
    by (auto simp: keys_def)
  show ?case
    using Cons.IH [OF d disj] by (simp add: kv dict_set_fresh [OF fresh])
qed

lemma align_inputs_map:
  "distinct (keys inputs) \<Longrightarrow>
   align_inputs cuda inputs = map (\<lambda>(k, v). (k, cast_value cuda v)) inputs"
  unfolding align_inputs_def using cast_loop_append [of inputs "[]" cuda]
  by (simp add: keys_def)

lemma keys_map_values:
  "keys (map (\<lambda>(k, v). (k, f v)) d) = keys d"
  unfolding keys_def by (induction d) auto

lemma dict_get_map_values:
  "dict_get (map (\<lambda>(k, v). (k, f v)) d) k = map_option f (dict_get d k)"
  unfolding dict_get_def by (induction d) auto

text \<open>
  C1. The alignment pass over a processor bundle (a dictionary, so its keys are
  distinct) returns a bundle with exactly the keys of the input, each once and in the
  same order. Under each key stands the input tensor rewritten: a floating-point tensor
  gets the model's device and the model's precision, any other tensor gets the model's
  device and keeps its element type; the shape is kept in both cases.
\<close>

theorem align_inputs_correct:
  assumes "distinct (keys inputs)"
  shows "keys (align_inputs cuda inputs) = keys inputs
    \<and> (\<forall>k v. dict_get inputs k = Some v \<longrightarrow>
          (\<exists>w. dict_get (align_inputs cuda inputs) k = Some w
             \<and> t_device w = DEVICE cuda
             \<and> t_shape w = t_shape v
             \<and> (if is_floating_point v then t_dtype w = DTYPE cuda
                 else t_dtype w = t_dtype v)))
    \<and> (\<forall>k. dict_get inputs k = None \<longrightarrow> dict_get (align_inputs cuda inputs) k = None)"
proof -
  have eq: "align_inputs cuda inputs = map (\<lambda>(k, v). (k, cast_value cuda v)) inputs"
    using assms by (rule align_inputs_map)
  have "keys (align_inputs cuda inputs) = keys inputs"
    unfolding eq by (rule keys_map_values)
  moreover have "\<exists>w. dict_get (align_inputs cuda inputs) k = Some w
             \<and> t_device w = DEVICE cuda
             \<and> t_shape w = t_shape v
             \<and> (if is_floating_point v then t_dtype w = DTYPE cuda
                 else t_dtype w = t_dtype v)"
    if "dict_get inputs k = Some v" for k v
    using that unfolding eq dict_get_map_values
    by (simp add: cast_value_def to_device_def to_device_dtype_def)
  moreover have "dict_get (align_inputs cuda inputs) k = None"
    if "dict_get inputs k = None" for k
    using that unfolding eq dict_get_map_values by simp
  ultimately show ?thesis by blast
qed

theorem align_inputs_correct_witness:
  "distinct (keys example_bundle)
   \<and> keys (align_inputs True example_bundle) = [''input_ids'', ''attention_mask'', ''pixel_values'']
   \<and> (\<exists>w. dict_get (align_inputs True example_bundle) ''pixel_values'' = Some w
          \<and> t_device w = ''cuda'' \<and> t_dtype w = Float16 \<and> t_shape w = [1, 3, 768, 768])
   \<and> (\<exists>w. dict_get (align_inputs True example_bundle) ''input_ids'' = Some w
          \<and> t_device w = ''cuda'' \<and> t_dtype w = Int64 \<and> t_shape w = [1, 3])
   \<and> dict_get (align_inputs True example_bundle) ''labels'' = None"
proof -
  have d: "distinct (keys example_bundle)"
    by (simp add: example_bundle_def keys_def)
  note main = align_inputs_correct [OF d, of True]
  have pv: "dict_get example_bundle ''pixel_values''
      = Some \<lparr>t_device = ''cpu'', t_dtype = Float32, t_shape = [1, 3, 768, 768]\<rparr>"
    by (simp add: example_bundle_def dict_get_def)
  have ids: "dict_get example_bundle ''input_ids''
      = Some \<lparr>t_device = ''cpu'', t_dtype = Int64, t_shape = [1, 3]\<rparr>"
    by (simp add: example_bundle_def dict_get_def)
  have none: "dict_get example_bundle ''labels'' = None"
    by (simp add: example_bundle_def dict_get_def)
  have k: "keys (align_inputs True example_bundle) = [''input_ids'', ''attention_mask'', ''pixel_values'']"
    using main by (simp add: example_bundle_def keys_def)
  from main [THEN conjunct2, THEN conjunct1, rule_format, OF pv]
  have "\<exists>w. dict_get (align_inputs True example_bundle) ''pixel_values'' = Some w
          \<and> t_device w = ''cuda'' \<and> t_dtype w = Float16 \<and> t_shape w = [1, 3, 768, 768]"
    by (auto simp add: DEVICE_def DTYPE_def is_floating_point_def)
  moreover from main [THEN conjunct2, THEN conjunct1, rule_format, OF ids]
  have "\<exists>w. dict_get (align_inputs True example_bundle) ''input_ids'' = Some w
          \<and> t_device w = ''cuda'' \<and> t_dtype w = Int64 \<and> t_shape w = [1, 3]"
    by (auto simp add: DEVICE_def DTYPE_def is_floating_point_def)
  moreover from main [THEN conjunct2, THEN conjunct2, rule_format, OF none]
  have "dict_get (align_inputs True example_bundle) ''labels'' = None"
    by simp
  ultimately show ?thesis using d k by blast
qed

section \<open>Properties of the caption endpoint\<close>


lemma post_process_cases:
  obtains
    (decode_fail) ex where
      "batch_decode eng gen False = Inl ex"
      "post_process eng env task img gen tr = (tr @ [BatchDecode gen False], Raised ex)"
  | (no_text)
      "batch_decode eng gen False = Inr []"
      "post_process eng env task img gen tr = (tr @ [BatchDecode gen False], Raised IndexError)"
  | (parse_fail) raw others ex where
      "batch_decode eng gen False = Inr (raw # others)"
      "post_process_generation eng raw task (img_size img) = Inl ex"
      "post_process eng env task img gen tr
         = (tr @ [BatchDecode gen False, PostProcess raw task (img_size img)], Raised ex)"
  | (parsed) raw others parsed where
      "batch_decode eng gen False = Inr (raw # others)"
      "post_process_generation eng raw task (img_size img) = Inr parsed"
      "post_process eng env task img gen tr
         = (tr @ [BatchDecode gen False, PostProcess raw task (img_size img)],
            Returned [(''model_id'', Str (MODEL_ID env)), (''task'', Str task),
                      (''result'', Parsed parsed)])"
proof (cases "batch_decode eng gen False")
  case (Inl ex)
  then show ?thesis using decode_fail by (simp add: post_process_def)
next
  case (Inr texts)
  show ?thesis
  proof (cases texts)
    case Nil
    with Inr show ?thesis using no_text by (simp add: post_process_def)
  next
    case (Cons raw others)
    show ?thesis
    proof (cases "post_process_generation eng raw task (img_size img)")
      case (Inl ex)
      with Inr Cons show ?thesis using parse_fail by (simp add: post_process_def)
    next
      case (Inr p)
      with \<open>batch_decode eng gen False = Inr texts\<close> Cons show ?thesis
        using parsed by (simp add: post_process_def)
    qed
  qed
qed

lemma generate_step_cases:
  obtains
    (no_input_ids)
      "dict_get inputs ''input_ids'' = None"
      "generate_step eng env task img inputs tr = (tr, Raised (KeyError ''input_ids''))"
  | (no_pixel_values) ids where
      "dict_get inputs ''input_ids'' = Some ids"
      "dict_get inputs ''pixel_values'' = None"
      "generate_step eng env task img inputs tr = (tr, Raised (KeyError ''pixel_values''))"
  | (generate_fail) ids pix ex where
      "dict_get inputs ''input_ids'' = Some ids"
      "dict_get inputs ''pixel_values'' = Some pix"
      "model_generate eng (generate_kwargs ids pix) = Inl ex"
      "generate_step eng env task img inputs tr
         = (tr @ [Generate (generate_kwargs ids pix)], Raised ex)"
  | (generated) ids pix gen where
      "dict_get inputs ''input_ids'' = Some ids"
      "dict_get inputs ''pixel_values'' = Some pix"
      "model_generate eng (generate_kwargs ids pix) = Inr gen"
      "generate_step eng env task img inputs tr
         = post_process eng env task img gen (tr @ [Generate (generate_kwargs ids pix)])"
proof (cases "dict_get inputs ''input_ids''")
  case None
  then show ?thesis using no_input_ids by (simp add: generate_step_def)
next
  case (Some ids)
  note ids = this
  show ?thesis
  proof (cases "dict_get inputs ''pixel_values''")
    case None
    with ids show ?thesis using no_pixel_values by (simp add: generate_step_def)
  next
    case (Some pix)
    note pix = this
    show ?thesis
    proof (cases "model_generate eng (generate_kwargs ids pix)")
      case (Inl ex)
      with ids pix show ?thesis using generate_fail by (simp add: generate_step_def)
    next
      case (Inr gen)
      with ids pix show ?thesis using generated by (simp add: generate_step_def)
    qed
  qed
qed

lemma caption_cases:
  obtains
    (read_fail) ex where
      "req_file req = Inl ex"
      "caption eng env cuda req = ([FileRead], invalid_image ex)"
  | (open_fail) payload ex where
      "req_file req = Inr payload"
      "image_open_rgb eng payload = Inl ex"
      "caption eng env cuda req = ([FileRead, ImageOpen payload], invalid_image ex)"
  | (processor_fail) payload img ex where
      "req_file req = Inr payload"
      "image_open_rgb eng payload = Inr img"
      "processor_call eng (task_of req) img = Inl ex"
      "caption eng env cuda req
         = ([FileRead, ImageOpen payload, Processor (task_of req) img], Raised ex)"
  | (tensorized) payload img inputs where
      "req_file req = Inr payload"
      "image_open_rgb eng payload = Inr img"
      "processor_call eng (task_of req) img = Inr inputs"
      "caption eng env cuda req
         = generate_step eng env (task_of req) img (align_inputs cuda inputs)
             [FileRead, ImageOpen payload, Processor (task_of req) img]"
proof (cases "req_file req")
  case (Inl ex)
  then show ?thesis using read_fail by (simp add: caption_def Let_def)
next
  case (Inr payload)
  note payload = this
  show ?thesis
  proof (cases "image_open_rgb eng payload")
    case (Inl ex)
    with payload show ?thesis using open_fail by (simp add: caption_def Let_def)
  next
    case (Inr img)
    note img = this
    show ?thesis
    proof (cases "processor_call eng (task_of req) img")
      case (Inl ex)
      with payload img show ?thesis using processor_fail
        by (simp add: caption_def Let_def)
    next
      case (Inr inputs)
      with payload img show ?thesis using tensorized
        by (simp add: caption_def Let_def)
    qed
  qed
qed


lemma caption_generate_reached:
  assumes "Generate kw \<in> set (fst (caption eng env cuda req))"
  obtains payload img inputs ids pix where
    "req_file req = Inr payload"
    "image_open_rgb eng payload = Inr img"
    "processor_call eng (task_of req) img = Inr inputs"
    "dict_get (align_inputs cuda inputs) ''input_ids'' = Some ids"
    "dict_get (align_inputs cuda inputs) ''pixel_values'' = Some pix"
    "kw = generate_kwargs ids pix"
    "caption eng env cuda req
       = (case model_generate eng kw of
            Inl ex \<Rightarrow>
              ([FileRead, ImageOpen payload, Processor (task_of req) img, Generate kw], Raised ex)
          | Inr gen \<Rightarrow>
              post_process eng env (task_of req) img gen
                [FileRead, ImageOpen payload, Processor (task_of req) img, Generate kw])"
proof (cases rule: caption_cases [of req eng env cuda])
  case (read_fail ex)
  with assms show ?thesis by simp
next
  case (open_fail payload ex)
  with assms show ?thesis by simp
next
  case (processor_fail payload img ex)
  with assms show ?thesis by simp
next
  case (tensorized payload img inputs)
  let ?tr = "[FileRead, ImageOpen payload, Processor (task_of req) img]"
  note cap = tensorized(4)
  show ?thesis
  proof (cases rule: generate_step_cases
      [of "align_inputs cuda inputs" eng env "task_of req" img ?tr])
    case no_input_ids
    with assms cap show ?thesis by simp
  next
    case (no_pixel_values ids)
    with assms cap show ?thesis by simp
  next
    case (generate_fail ids pix ex)
    from assms cap generate_fail(4) have kw: "kw = generate_kwargs ids pix" by simp
    show ?thesis
      using that [OF tensorized(1-3) generate_fail(1,2) kw] cap generate_fail(3,4) kw
      by simp
  next
    case (generated ids pix gen)
    let ?tr1 = "?tr @ [Generate (generate_kwargs ids pix)]"
    have kw: "kw = generate_kwargs ids pix"
      using assms unfolding cap generated(4)
      by (cases rule: post_process_cases [of eng gen env "task_of req" img ?tr1]) simp_all
    show ?thesis
      using that [OF tensorized(1-3) generated(1,2) kw] cap generated(3,4) kw
      by simp
  qed
qed

lemma caption_example:
  "caption example_engine None True example_request
     = ([FileRead, ImageOpen ''PNG'', Processor ''<CAPTION>'' example_image,
         Generate example_kwargs, BatchDecode [[2, 0, 5, 2]] False,
         PostProcess ''</s><s>a cat</s>'' ''<CAPTION>'' (4, 3)],
        Returned [(''model_id'', Str ''microsoft/Florence-2-base''),
                  (''task'', Str ''<CAPTION>''),
                  (''result'', Parsed ''<CAPTION></s><s>a cat</s>'')])"
  by (simp add: caption_def Let_def generate_step_def post_process_def example_engine_def
      example_request_def example_image_def example_bundle_def example_kwargs_def
      task_of_def DEFAULT_TASK_def MODEL_ID_def DEFAULT_MODEL_ID_def
      align_inputs_def dict_set_def dict_get_def cast_value_def is_floating_point_def
      to_device_def to_device_dtype_def DEVICE_def DTYPE_def generate_kwargs_def)

text \<open>
  C2. When the upload cannot be read or the decoder raises on its bytes, whatever the
  exception, \<open>caption\<close> raises the HTTP error 400 whose detail is \<open>Invalid image: \<close>
  followed by the message of that exception, and the run makes no call to the
  processor and no call to \<open>generate\<close>.
\<close>

theorem caption_invalid_image:
  assumes "req_file req = Inl ex
     \<or> (\<exists>payload. req_file req = Inr payload \<and> image_open_rgb eng payload = Inl ex)"
  shows "snd (caption eng env cuda req) = HTTPException 400 (''Invalid image: '' @ str ex)
     \<and> filter is_tensorize (fst (caption eng env cuda req)) = []
     \<and> filter is_generate (fst (caption eng env cuda req)) = []"
  using assms by (auto simp: caption_def invalid_image_def Let_def)

theorem caption_invalid_image_witness:
  "req_file text_request = Inr ''hello''
   \<and> image_open_rgb example_engine ''hello'' = Inl (Exception ''cannot identify image file'')
   \<and> snd (caption example_engine None True text_request)
       = HTTPException 400 ''Invalid image: cannot identify image file''
   \<and> filter is_tensorize (fst (caption example_engine None True text_request)) = []
   \<and> filter is_generate (fst (caption example_engine None True text_request)) = []"
proof -
  have r: "req_file text_request = Inr ''hello''"
    by (simp add: text_request_def)
  have d: "image_open_rgb example_engine ''hello'' = Inl (Exception ''cannot identify image file'')"
    by (simp add: example_engine_def)
  from r d have "req_file text_request = Inl (Exception ''cannot identify image file'')
     \<or> (\<exists>payload. req_file text_request = Inr payload
           \<and> image_open_rgb example_engine payload = Inl (Exception ''cannot identify image file''))"
    by blast
  from caption_invalid_image [OF this, of None True] r d show ?thesis by simp
qed





lemma caption_returned:
  assumes "snd (caption eng env cuda req) = Returned r"
  shows "\<exists>payload img inputs ids pix gen raw others parsed.
      req_file req = Inr payload
    \<and> image_open_rgb eng payload = Inr img
    \<and> processor_call eng (task_of req) img = Inr inputs
    \<and> dict_get (align_inputs cuda inputs) ''input_ids'' = Some ids
    \<and> dict_get (align_inputs cuda inputs) ''pixel_values'' = Some pix
    \<and> model_generate eng (generate_kwargs ids pix) = Inr gen
    \<and> batch_decode eng gen False = Inr (raw # others)
    \<and> post_process_generation eng raw (task_of req) (img_size img) = Inr parsed
    \<and> caption eng env cuda req
        = ([FileRead, ImageOpen payload, Processor (task_of req) img,
            Generate (generate_kwargs ids pix), BatchDecode gen False,
            PostProcess raw (task_of req) (img_size img)],
           Returned [(''model_id'', Str (MODEL_ID env)), (''task'', Str (task_of req)),
                     (''result'', Parsed parsed)])"
proof (cases rule: caption_cases [of req eng env cuda])
  case (read_fail ex)
  with assms show ?thesis by (simp add: invalid_image_def)
next
  case (open_fail payload ex)
  with assms show ?thesis by (simp add: invalid_image_def)
next
  case (processor_fail payload img ex)
  with assms show ?thesis by simp
next
  case (tensorized payload img inputs)
  let ?tr = "[FileRead, ImageOpen payload, Processor (task_of req) img]"
  note cap = tensorized(4)
  show ?thesis
  proof (cases rule: generate_step_cases
      [of "align_inputs cuda inputs" eng env "task_of req" img ?tr])
    case no_input_ids
    with assms cap show ?thesis by simp
  next
    case (no_pixel_values ids)
    with assms cap show ?thesis by simp
  next
    case (generate_fail ids pix ex)
    with assms cap show ?thesis by simp
  next
    case (generated ids pix gen)
    let ?tr1 = "?tr @ [Generate (generate_kwargs ids pix)]"
    show ?thesis
    proof (cases rule: post_process_cases [of eng gen env "task_of req" img ?tr1])
      case (decode_fail ex)
      with assms cap generated(4) show ?thesis by simp
    next
      case no_text
      with assms cap generated(4) show ?thesis by simp
    next
      case (parse_fail raw others ex)
      with assms cap generated(4) show ?thesis by simp
    next
      case (parsed raw others p)
      from cap generated(4) parsed(3) have
        "caption eng env cuda req
        = ([FileRead, ImageOpen payload, Processor (task_of req) img,
            Generate (generate_kwargs ids pix), BatchDecode gen False,
            PostProcess raw (task_of req) (img_size img)],
           Returned [(''model_id'', Str (MODEL_ID env)), (''task'', Str (task_of req)),
                     (''result'', Parsed p)])"
        by simp
      with tensorized(1-3) generated(1-3) parsed(1,2) show ?thesis by blast
    qed
  qed
qed

text \<open>
  C7. When \<open>generate\<close> has returned token ids, the next call is \<open>batch_decode\<close> on
  exactly these ids with \<open>skip_special_tokens = False\<close>. If decoding yields a first
  text, the call after it is \<open>post_process_generation\<close> on that text, the request's
  task as the endpoint received it (no check of it is made) and the size of the decoded
  image; what the parser returns is the \<open>result\<close> of the response, and what it raises
  is raised.
\<close>

theorem caption_post_processing:
  assumes "Generate kw \<in> set (fst (caption eng env cuda req))"
    and "model_generate eng kw = Inr gen"
  shows "\<exists>payload img pre.
      req_file req = Inr payload
    \<and> image_open_rgb eng payload = Inr img
    \<and> pre = [FileRead, ImageOpen payload, Processor (task_of req) img, Generate kw,
             BatchDecode gen False]
    \<and> ((\<forall>raw others. batch_decode eng gen False \<noteq> Inr (raw # others))
          \<and> fst (caption eng env cuda req) = pre
          \<and> (\<forall>r. snd (caption eng env cuda req) \<noteq> Returned r)
        \<or> (\<exists>raw others. batch_decode eng gen False = Inr (raw # others)
              \<and> fst (caption eng env cuda req)
                  = pre @ [PostProcess raw (task_of req) (img_size img)]
              \<and> snd (caption eng env cuda req)
                  = (case post_process_generation eng raw (task_of req) (img_size img) of
                       Inl ex \<Rightarrow> Raised ex
                     | Inr parsed \<Rightarrow>
                         Returned [(''model_id'', Str (MODEL_ID env)),
                                   (''task'', Str (task_of req)),
                                   (''result'', Parsed parsed)])))"
proof -
  from assms(1) obtain payload img where
    h: "req_file req = Inr payload" "image_open_rgb eng payload = Inr img"
    and cap: "caption eng env cuda req
       = (case model_generate eng kw of
            Inl ex \<Rightarrow>
              ([FileRead, ImageOpen payload, Processor (task_of req) img, Generate kw], Raised ex)
          | Inr gen \<Rightarrow>
              post_process eng env (task_of req) img gen
                [FileRead, ImageOpen payload, Processor (task_of req) img, Generate kw])"
    by (rule caption_generate_reached)
  let ?tr = "[FileRead, ImageOpen payload, Processor (task_of req) img, Generate kw]"
  from cap assms(2) have eq:
    "caption eng env cuda req = post_process eng env (task_of req) img gen ?tr"
    by simp
  have "(\<forall>raw others. batch_decode eng gen False \<noteq> Inr (raw # others))
          \<and> fst (caption eng env cuda req) = ?tr @ [BatchDecode gen False]
          \<and> (\<forall>r. snd (caption eng env cuda req) \<noteq> Returned r)
        \<or> (\<exists>raw others. batch_decode eng gen False = Inr (raw # others)
              \<and> fst (caption eng env cuda req)
                  = (?tr @ [BatchDecode gen False]) @ [PostProcess raw (task_of req) (img_size img)]
              \<and> snd (caption eng env cuda req)
                  = (case post_process_generation eng raw (task_of req) (img_size img) of
                       Inl ex \<Rightarrow> Raised ex
                     | Inr parsed \<Rightarrow>
                         Returned [(''model_id'', Str (MODEL_ID env)),
                                   (''task'', Str (task_of req)),
                                   (''result'', Parsed parsed)]))"
    unfolding eq
    by (cases rule: post_process_cases [of eng gen env "task_of req" img ?tr]) simp_all
  with h show ?thesis by simp
qed

theorem caption_post_processing_witness:
  "Generate example_kwargs \<in> set (fst (caption example_engine None True example_request))
   \<and> model_generate example_engine example_kwargs = Inr [[2, 0, 5, 2]]
   \<and> batch_decode example_engine [[2, 0, 5, 2]] False = Inr [''</s><s>a cat</s>'']
   \<and> fst (caption example_engine None True example_request)
       = [FileRead, ImageOpen ''PNG'', Processor ''<CAPTION>'' example_image,
          Generate example_kwargs, BatchDecode [[2, 0, 5, 2]] False,
          PostProcess ''</s><s>a cat</s>'' ''<CAPTION>'' (4, 3)]
   \<and> snd (caption example_engine None True example_request)
       = Returned [(''model_id'', Str ''microsoft/Florence-2-base''),
                   (''task'', Str ''<CAPTION>''),
                   (''result'', Parsed ''<CAPTION></s><s>a cat</s>'')]"
proof -
  have mem: "Generate example_kwargs
      \<in> set (fst (caption example_engine None True example_request))"
    by (simp add: caption_example)
  have gen: "model_generate example_engine example_kwargs = Inr [[2, 0, 5, 2]]"
    by (simp add: example_engine_def)
  have dec: "batch_decode example_engine [[2, 0, 5, 2]] False = Inr [''</s><s>a cat</s>'']"
    by (simp add: example_engine_def)
  from caption_post_processing [OF mem gen] mem gen dec show ?thesis
    by (simp add: caption_example)
qed

lemma caption_od_example:
  "caption example_engine None True od_request
     = ([FileRead, ImageOpen ''PNG'', Processor ''<OD>'' example_image,
         Generate example_kwargs, BatchDecode [[2, 0, 5, 2]] False,
         PostProcess ''</s><s>a cat</s>'' ''<OD>'' (4, 3)],
        Returned [(''model_id'', Str ''microsoft/Florence-2-base''),
                  (''task'', Str ''<OD>''),
                  (''result'', Parsed ''<OD></s><s>a cat</s>'')])"
  by (simp add: caption_def Let_def generate_step_def post_process_def example_engine_def
      od_request_def example_image_def example_bundle_def example_kwargs_def
      task_of_def DEFAULT_TASK_def MODEL_ID_def DEFAULT_MODEL_ID_def
      align_inputs_def dict_set_def dict_get_def cast_value_def is_floating_point_def
      to_device_def to_device_dtype_def DEVICE_def DTYPE_def generate_kwargs_def)

lemma caption_empty_task_example:
  "caption example_engine None True empty_task_request
     = ([FileRead, ImageOpen ''PNG'', Processor ''<CAPTION>'' example_image,
         Generate example_kwargs, BatchDecode [[2, 0, 5, 2]] False,
         PostProcess ''</s><s>a cat</s>'' ''<CAPTION>'' (4, 3)],
        Returned [(''model_id'', Str ''microsoft/Florence-2-base''),
                  (''task'', Str ''<CAPTION>''),
                  (''result'', Parsed ''<CAPTION></s><s>a cat</s>'')])"
  by (simp add: caption_def Let_def generate_step_def post_process_def example_engine_def
      empty_task_request_def example_image_def example_bundle_def example_kwargs_def
      task_of_def DEFAULT_TASK_def MODEL_ID_def DEFAULT_MODEL_ID_def
      align_inputs_def dict_set_def dict_get_def cast_value_def is_floating_point_def
      to_device_def to_device_dtype_def DEVICE_def DTYPE_def generate_kwargs_def)

text \<open>
  C6 (as the code has it). A response that \<open>caption\<close> returns is the dictionary with
  the three keys \<open>model_id\<close>, \<open>task\<close> and \<open>result\<close>. The first is the loaded model
  identifier. The second is the task as the client sent it when it is not empty, and
  \<open><CAPTION>\<close> when the field was left out or sent empty. The third is what the
  parser returned in this run, for the first text decoded from what \<open>generate\<close>
  returned on this request's tensors, the same task and the size of this request's
  image.
\<close>

theorem caption_response:
  assumes "snd (caption eng env cuda req) = Returned r"
  shows "\<exists>payload img inputs ids pix gen raw others parsed task.
      task = (case req_task req of
                None \<Rightarrow> ''<CAPTION>''
              | Some t \<Rightarrow> if t = [] then ''<CAPTION>'' else t)
    \<and> req_file req = Inr payload
    \<and> image_open_rgb eng payload = Inr img
    \<and> processor_call eng task img = Inr inputs
    \<and> dict_get (align_inputs cuda inputs) ''input_ids'' = Some ids
    \<and> dict_get (align_inputs cuda inputs) ''pixel_values'' = Some pix
    \<and> model_generate eng (generate_kwargs ids pix) = Inr gen
    \<and> batch_decode eng gen False = Inr (raw # others)
    \<and> post_process_generation eng raw task (img_size img) = Inr parsed
    \<and> r = [(''model_id'', Str (MODEL_ID env)), (''task'', Str task),
            (''result'', Parsed parsed)]"
proof -
  have t: "task_of req = (case req_task req of
                None \<Rightarrow> ''<CAPTION>''
              | Some t \<Rightarrow> if t = [] then ''<CAPTION>'' else t)"
    by (simp add: task_of_def DEFAULT_TASK_def split: option.splits)
  from caption_returned [OF assms]
  obtain payload img inputs ids pix gen raw others parsed where
    h: "req_file req = Inr payload"
      "image_open_rgb eng payload = Inr img"
      "processor_call eng (task_of req) img = Inr inputs"
      "dict_get (align_inputs cuda inputs) ''input_ids'' = Some ids"
      "dict_get (align_inputs cuda inputs) ''pixel_values'' = Some pix"
      "model_generate eng (generate_kwargs ids pix) = Inr gen"
      "batch_decode eng gen False = Inr (raw # others)"
      "post_process_generation eng raw (task_of req) (img_size img) = Inr parsed"
    and c: "caption eng env cuda req
        = ([FileRead, ImageOpen payload, Processor (task_of req) img,
            Generate (generate_kwargs ids pix), BatchDecode gen False,
            PostProcess raw (task_of req) (img_size img)],
           Returned [(''model_id'', Str (MODEL_ID env)), (''task'', Str (task_of req)),
                     (''result'', Parsed parsed)])"
    by (elim exE conjE)
  from c assms have r: "r = [(''model_id'', Str (MODEL_ID env)), (''task'', Str (task_of req)),
                     (''result'', Parsed parsed)]"
    by simp
  show ?thesis
    using t h r by (intro exI conjI)
qed

theorem caption_response_witness:
  "snd (caption example_engine None True od_request)
     = Returned [(''model_id'', Str ''microsoft/Florence-2-base''),
                 (''task'', Str ''<OD>''),
                 (''result'', Parsed ''<OD></s><s>a cat</s>'')]
   \<and> req_task od_request = Some ''<OD>''
   \<and> (\<exists>(img :: image) raw parsed.
         post_process_generation example_engine raw ''<OD>'' (img_size img) = Inr parsed
       \<and> [(''model_id'', Str ''microsoft/Florence-2-base''), (''task'', Str ''<OD>''),
           (''result'', Parsed ''<OD></s><s>a cat</s>'')]
         = [(''model_id'', Str (MODEL_ID None)), (''task'', Str ''<OD>''),
            (''result'', Parsed parsed)])"
proof -
  have ret: "snd (caption example_engine None True od_request)
     = Returned [(''model_id'', Str ''microsoft/Florence-2-base''),
                 (''task'', Str ''<OD>''),
                 (''result'', Parsed ''<OD></s><s>a cat</s>'')]"
    by (simp add: caption_od_example)
  have t: "req_task od_request = Some ''<OD>''"
    by (simp add: od_request_def)
  from caption_response [OF ret]
  obtain payload img inputs ids pix gen raw others parsed task where
    tk: "task = (case req_task od_request of
                None \<Rightarrow> ''<CAPTION>''
              | Some t \<Rightarrow> if t = [] then ''<CAPTION>'' else t)"
    and "req_file od_request = Inr payload"
    and "image_open_rgb example_engine payload = Inr img"
    and "processor_call example_engine task img = Inr inputs"
    and "dict_get (align_inputs True inputs) ''input_ids'' = Some ids"
    and "dict_get (align_inputs True inputs) ''pixel_values'' = Some pix"
    and "model_generate example_engine (generate_kwargs ids pix) = Inr gen"
    and "batch_decode example_engine gen False = Inr (raw # others)"
    and p: "post_process_generation example_engine raw task (img_size img) = Inr parsed"
    and r: "[(''model_id'', Str ''microsoft/Florence-2-base''), (''task'', Str ''<OD>''),
           (''result'', Parsed ''<OD></s><s>a cat</s>'')]
         = [(''model_id'', Str (MODEL_ID None)), (''task'', Str task),
            (''result'', Parsed parsed)]"
    by (elim exE conjE)
  from tk t have task: "task = ''<OD>''" by simp
  have "\<exists>(img :: image) raw parsed.
         post_process_generation example_engine raw ''<OD>'' (img_size img) = Inr parsed
       \<and> [(''model_id'', Str ''microsoft/Florence-2-base''), (''task'', Str ''<OD>''),
           (''result'', Parsed ''<OD></s><s>a cat</s>'')]
         = [(''model_id'', Str (MODEL_ID None)), (''task'', Str ''<OD>''),
            (''result'', Parsed parsed)]"
    apply (rule exI [of _ img])
    apply (rule exI [of _ raw])
    apply (rule exI [of _ parsed])
    apply (rule conjI)
     apply (rule p [unfolded task])
    apply (rule r [unfolded task])
    done
  with ret t show ?thesis by (intro conjI)
qed

text \<open>
  C6 as it is worded echoes the task exactly as supplied. A client that sends the
  field \<open>task\<close> with the empty string gets \<open><CAPTION>\<close> back, not the empty string.
\<close>

theorem caption_empty_task_counterexample:
  "req_task empty_task_request = Some ''''
   \<and> snd (caption example_engine None True empty_task_request)
       = Returned [(''model_id'', Str ''microsoft/Florence-2-base''),
                   (''task'', Str ''<CAPTION>''),
                   (''result'', Parsed ''<CAPTION></s><s>a cat</s>'')]
   \<and> ''<CAPTION>'' \<noteq> ''''"
  by (simp add: caption_empty_task_example) (simp add: empty_task_request_def)

section \<open>Properties of the health probe\<close>

lemma module_load_model_id:
  assumes "module_load h env cuda = None"
  shows "MODEL_ID env \<noteq> []"
proof
  assume "MODEL_ID env = []"
  then have "module_load h env cuda = Some (Exception ''Incorrect path_or_model_id'')"
    by (simp add: module_load_def from_pretrained_def)
  with assms show False by simp
qed

text \<open>
  C4 (as the code has it). Once the module has been loaded, \<open>health\<close> has no failing
  path: it returns the status \<open>ok\<close>, the model identifier the module was loaded from,
  which is not empty, and the device, which is the string \<open>cuda\<close> when an accelerator
  is available and \<open>cpu\<close> otherwise.
\<close>

theorem health_ok:
  assumes "module_load h env cuda = None"
  shows "dict_get (health env cuda) ''status'' = Some ''ok''
   \<and> dict_get (health env cuda) ''model_id'' = Some (MODEL_ID env)
   \<and> MODEL_ID env \<noteq> []
   \<and> dict_get (health env cuda) ''device'' = Some (if cuda then ''cuda'' else ''cpu'')
   \<and> keys (health env cuda) = [''status'', ''model_id'', ''device'']"
proof -
  from assms have "MODEL_ID env \<noteq> []" by (rule module_load_model_id)
  then show ?thesis
    by (simp add: health_def dict_get_def keys_def DEVICE_def)
qed

lemma example_module_load: "module_load example_hub None True = None"
  by (simp add: module_load_def from_pretrained_def example_hub_def MODEL_ID_def
      DEFAULT_MODEL_ID_def)

theorem health_ok_witness:
  "module_load example_hub None True = None
   \<and> dict_get (health None True) ''status'' = Some ''ok''
   \<and> dict_get (health None True) ''model_id'' = Some ''microsoft/Florence-2-base''
   \<and> MODEL_ID None \<noteq> []
   \<and> dict_get (health None True) ''device'' = Some ''cuda''"
proof -
  note main = health_ok [OF example_module_load]
  from main have s: "dict_get (health None True) ''status'' = Some ''ok''"
    by (rule conjunct1)
  from main have i: "dict_get (health None True) ''model_id'' = Some ''microsoft/Florence-2-base''"
    by (simp add: MODEL_ID_def DEFAULT_MODEL_ID_def)
  from main have m: "MODEL_ID None \<noteq> []"
    by simp
  from main have d: "dict_get (health None True) ''device'' = Some ''cuda''"
    by simp
  show ?thesis using example_module_load s i m d by (intro conjI)
qed

text \<open>
  C4 as it is worded asks for the device \<open>cpu\<close> or \<open>gpu\<close>. With the module loaded
  and an accelerator available the device field is \<open>cuda\<close>, which is neither.
\<close>

theorem health_device_counterexample:
  "module_load example_hub None True = None
   \<and> \<not> (dict_get (health None True) ''device'' = Some ''cpu''
        \<or> dict_get (health None True) ''device'' = Some ''gpu'')"
  by (simp add: example_module_load) (simp add: health_def dict_get_def DEVICE_def)

section \<open>Properties of requests served by one event loop\<close>

lemma post_process_extends:
  "\<exists>suf. fst (post_process eng env task img gen tr) = tr @ suf"
  by (cases rule: post_process_cases [of eng gen env task img tr]) simp_all

lemma generate_step_extends:
  "\<exists>suf. fst (generate_step eng env task img inputs tr) = tr @ suf"
proof (cases rule: generate_step_cases [of inputs eng env task img tr])
  case (generated ids pix gen)
  from post_process_extends [of eng env task img gen "tr @ [Generate (generate_kwargs ids pix)]"]
  show ?thesis unfolding generated(4) by auto
qed simp_all

lemma caption_split:
  "fst (caption eng env cuda req) = caption_start @ fst (caption_resume eng env cuda req)"
proof -
  have "\<exists>rest. fst (caption eng env cuda req) = FileRead # rest"
  proof (cases rule: caption_cases [of req eng env cuda])
    case (tensorized payload img inputs)
    from generate_step_extends [of eng env "task_of req" img "align_inputs cuda inputs"
        "[FileRead, ImageOpen payload, Processor (task_of req) img]"]
    show ?thesis unfolding tensorized(4) by auto
  qed simp_all
  then show ?thesis
    by (auto simp: caption_start_def caption_resume_def)
qed

lemma finished_silent:
  "ph i = Finished \<Longrightarrow> i \<notin> owner ` set (event_loop eng env cuda reqs sched ph)"
proof (induction sched arbitrary: ph)
  case Nil
  then show ?case by simp
next
  case (Cons s sched)
  show ?case
  proof (cases "s = i")
    case True
    with Cons show ?thesis by simp
  next
    case False
    with Cons.prems have upd: "(ph(s := p)) i = Finished" for p by simp
    have "i \<notin> owner ` set (event_loop eng env cuda reqs sched (ph(s := p)))" for p
      by (rule Cons.IH) (rule upd)
    moreover have "i \<notin> owner ` set (event_loop eng env cuda reqs sched ph)"
      by (rule Cons.IH) (rule Cons.prems)
    ultimately show ?thesis
      using False by (auto simp: caption_start_def split: phase.splits)
  qed
qed

lemma replies_own:
  "Reply i out \<in> set (event_loop eng env cuda reqs sched ph) \<Longrightarrow>
   i < length reqs \<and> out = snd (caption eng env cuda (reqs ! i))"
proof (induction sched arbitrary: ph)
  case Nil
  then show ?case by simp
next
  case (Cons s sched)
  from Cons.prems consider
    (here) "s < length reqs" "ph s = AtAwait" "i = s"
      "out = snd (caption_resume eng env cuda (reqs ! s))"
    | (later) p where "Reply i out \<in> set (event_loop eng env cuda reqs sched p)"
    by (auto simp: caption_start_def split: if_splits phase.splits)
  then show ?case
  proof cases
    case here
    then show ?thesis by (simp add: caption_resume_def)
  next
    case later
    then show ?thesis by (rule Cons.IH)
  qed
qed

lemma resumes_reply:
  "i < length reqs \<Longrightarrow> ph i = AtAwait \<Longrightarrow> i \<in> set sched \<Longrightarrow>
   Reply i (snd (caption eng env cuda (reqs ! i))) \<in> set (event_loop eng env cuda reqs sched ph)"
proof (induction sched arbitrary: ph)
  case Nil
  then show ?case by simp
next
  case (Cons s sched)
  show ?case
  proof (cases "s = i")
    case True
    with Cons.prems show ?thesis by (simp add: caption_resume_def)
  next
    case False
    with Cons.prems have in_rest: "i \<in> set sched" by simp
    from False Cons.prems have upd: "(ph(s := p)) i = AtAwait" for p by simp
    have "Reply i (snd (caption eng env cuda (reqs ! i)))
        \<in> set (event_loop eng env cuda reqs sched (ph(s := p)))" for p
      by (rule Cons.IH) (rule Cons.prems(1) upd in_rest)+
    moreover have "Reply i (snd (caption eng env cuda (reqs ! i)))
        \<in> set (event_loop eng env cuda reqs sched ph)"
      by (rule Cons.IH) (rule Cons.prems(1,2) in_rest)+
    ultimately show ?thesis
      by (simp split: phase.splits)
  qed
qed

lemma starts_reply:
  "i < length reqs \<Longrightarrow> ph i = NotStarted \<Longrightarrow> 2 \<le> count_list sched i \<Longrightarrow>
   Reply i (snd (caption eng env cuda (reqs ! i))) \<in> set (event_loop eng env cuda reqs sched ph)"
proof (induction sched arbitrary: ph)
  case Nil
  then show ?case by simp
next
  case (Cons s sched)
  show ?case
  proof (cases "s = i")
    case True
    with Cons.prems have "count_list sched i \<noteq> 0" by simp
    then have "i \<in> set sched" by (simp add: count_list_0_iff)
    then have "Reply i (snd (caption eng env cuda (reqs ! i)))
        \<in> set (event_loop eng env cuda reqs sched (ph(i := AtAwait)))"
      using Cons.prems(1) by (intro resumes_reply) simp_all
    with True Cons.prems show ?thesis by simp
  next
    case False
    with Cons.prems have c: "2 \<le> count_list sched i" by simp
    from False Cons.prems have upd: "(ph(s := p)) i = NotStarted" for p by simp
    have "Reply i (snd (caption eng env cuda (reqs ! i)))
        \<in> set (event_loop eng env cuda reqs sched (ph(s := p)))" for p
      by (rule Cons.IH) (rule Cons.prems(1) upd c)+
    moreover have "Reply i (snd (caption eng env cuda (reqs ! i)))
        \<in> set (event_loop eng env cuda reqs sched ph)"
      by (rule Cons.IH) (rule Cons.prems(1,2) c)+
    ultimately show ?thesis
      by (simp split: phase.splits)
  qed
qed

lemma append_Cons_eq:
  "as @ b # bs = xs @ c # ys \<Longrightarrow>
   (\<exists>us. as = xs @ c # us \<and> ys = us @ b # bs)
   \<or> (as = xs \<and> b = c \<and> bs = ys)
   \<or> (\<exists>us. xs = as @ b # us \<and> bs = us @ c # ys)"
proof (induction as arbitrary: xs)
  case Nil
  then show ?case by (cases xs) auto
next
  case (Cons a as)
  show ?case
  proof (cases xs)
    case Nil
    with Cons.prems show ?thesis by auto
  next
    case (Cons x xs')
    with Cons.prems have "as @ b # bs = xs' @ c # ys" and "a = x" by auto
    from Cons.IH [OF this(1)] this(2) Cons show ?thesis by auto
  qed
qed

lemma append_Cons_cases:
  assumes "as @ b # bs = xs @ c # ys"
  obtains (inside) us where "as = xs @ c # us" "ys = us @ b # bs"
    | (same) "as = xs" "b = c" "bs = ys"
    | (after) us where "xs = as @ b # us" "bs = us @ c # ys"
  using append_Cons_eq [OF assms] by (elim disjE exE conjE)

lemma map_eq_append_Cons:
  "map f evs = xs @ c # us \<Longrightarrow> \<exists>e e2. c = f e \<and> us = map f e2"
proof (induction evs arbitrary: xs)
  case Nil
  then show ?case by simp
next
  case (Cons a evs)
  show ?case
  proof (cases xs)
    case Nil
    with Cons.prems have "c = f a" "us = map f evs" by auto
    then show ?thesis by blast
  next
    case (Cons x xs')
    with Cons.prems have "map f evs = xs' @ c # us" by auto
    then show ?thesis by (rule Cons.IH)
  qed
qed

text \<open>
  From the call of \<open>generate\<close> for a request to the reply to that request, the server
  does nothing for any other request; after the reply, nothing more for this one.
\<close>

lemma generate_block:
  "event_loop eng env cuda reqs sched ph = xs @ Call i (Generate kw) # ys \<Longrightarrow>
   \<exists>own rest. ys = map (Call i) own @ Reply i (snd (caption eng env cuda (reqs ! i))) # rest
     \<and> i \<notin> owner ` set rest"
proof (induction sched arbitrary: ph xs)
  case Nil
  then show ?case by simp
next
  case (Cons s sched)
  consider (skip) "\<not> s < length reqs \<or> ph s = Finished"
    | (start) "s < length reqs" "ph s = NotStarted"
    | (resume) "s < length reqs" "ph s = AtAwait"
    by (cases "ph s") auto
  then show ?case
  proof cases
    case skip
    then have "event_loop eng env cuda reqs (s # sched) ph
        = event_loop eng env cuda reqs sched ph"
      by auto
    with Cons.prems have "event_loop eng env cuda reqs sched ph = xs @ Call i (Generate kw) # ys"
      by simp
    then show ?thesis by (rule Cons.IH)
  next
    case start
    define L where "L = event_loop eng env cuda reqs sched (ph(s := AtAwait))"
    from start Cons.prems have eq: "[] @ Call s FileRead # L = xs @ Call i (Generate kw) # ys"
      by (simp add: caption_start_def L_def)
    from eq show ?thesis
    proof (cases rule: append_Cons_cases)
      case (inside us)
      then show ?thesis by simp
    next
      case same
      then show ?thesis by simp
    next
      case (after us)
      from after(2) show ?thesis unfolding L_def by (rule Cons.IH)
    qed
  next
    case resume
    define evs where "evs = fst (caption_resume eng env cuda (reqs ! s))"
    define out where "out = snd (caption_resume eng env cuda (reqs ! s))"
    define L where "L = event_loop eng env cuda reqs sched (ph(s := Finished))"
    from resume Cons.prems
    have eq: "map (Call s) evs @ Reply s out # L = xs @ Call i (Generate kw) # ys"
      by (simp add: evs_def out_def L_def)
    from eq show ?thesis
    proof (cases rule: append_Cons_cases)
      case (inside us)
      from map_eq_append_Cons [OF inside(1)] obtain e e2 where
        c: "Call i (Generate kw) = Call s e" and us: "us = map (Call s) e2"
        by blast
      from c have same: "i = s" by simp
      have "(ph(s := Finished)) s = Finished" by simp
      then have silent: "s \<notin> owner ` set L" unfolding L_def by (rule finished_silent)
      have o: "out = snd (caption eng env cuda (reqs ! s))"
        by (simp add: out_def caption_resume_def)
      have "ys = map (Call i) e2 @ Reply i (snd (caption eng env cuda (reqs ! i))) # L"
        unfolding inside(2) us same o ..
      with silent same show ?thesis by blast
    next
      case same
      then show ?thesis by simp
    next
      case (after us)
      from after(2) show ?thesis unfolding L_def by (rule Cons.IH)
    qed
  qed
qed

lemma earlier_replied:
  assumes log: "event_loop eng env cuda reqs sched ph = xs @ Call i (Generate kw) # ys"
    and before: "Call j (Generate kw') \<in> set xs"
    and other: "j \<noteq> i"
  shows "Reply j (snd (caption eng env cuda (reqs ! j))) \<in> set xs"
proof -
  from before obtain xs1 xs2 where xs: "xs = xs1 @ Call j (Generate kw') # xs2"
    by (auto dest: split_list)
  define out where "out = snd (caption eng env cuda (reqs ! j))"
  from log xs have "event_loop eng env cuda reqs sched ph
      = xs1 @ Call j (Generate kw') # (xs2 @ Call i (Generate kw) # ys)"
    by simp
  from generate_block [OF this] obtain own rest where
    "xs2 @ Call i (Generate kw) # ys = map (Call j) own @ Reply j out # rest"
    unfolding out_def by blast
  then have eq: "map (Call j) own @ Reply j out # rest = xs2 @ Call i (Generate kw) # ys"
    by simp
  from eq have "Reply j out \<in> set xs2"
  proof (cases rule: append_Cons_cases)
    case (inside us)
    from map_eq_append_Cons [OF inside(1)] other show ?thesis by auto
  next
    case same
    then show ?thesis by simp
  next
    case (after us)
    then show ?thesis by simp
  qed
  then show ?thesis unfolding xs out_def by simp
qed

text \<open>
  C5. Whatever the order in which the event loop picks the requests, the calls of
  \<open>generate\<close> do not overlap: from the call of \<open>generate\<close> for a request up to the
  reply to that request the server works for this request alone, and every other
  request whose \<open>generate\<close> was called earlier has been replied to before. Every reply
  is the outcome of \<open>caption\<close> on the request's own input, and every request that the
  loop picks twice gets its reply.
\<close>

theorem generate_calls_serialized:
  "(\<forall>xs i kw ys.
      serve eng env cuda reqs sched = xs @ Call i (Generate kw) # ys \<longrightarrow>
        (\<exists>own rest.
            ys = map (Call i) own @ Reply i (snd (caption eng env cuda (reqs ! i))) # rest
          \<and> i \<notin> owner ` set rest)
      \<and> (\<forall>j kw'. j \<noteq> i \<longrightarrow> Call j (Generate kw') \<in> set xs \<longrightarrow>
            Reply j (snd (caption eng env cuda (reqs ! j))) \<in> set xs))
   \<and> (\<forall>i out. Reply i out \<in> set (serve eng env cuda reqs sched) \<longrightarrow>
         i < length reqs \<and> out = snd (caption eng env cuda (reqs ! i)))
   \<and> (\<forall>i. i < length reqs \<longrightarrow> 2 \<le> count_list sched i \<longrightarrow>
         Reply i (snd (caption eng env cuda (reqs ! i)))
           \<in> set (serve eng env cuda reqs sched))"
proof (intro conjI allI impI)
  fix xs i kw ys
  assume "serve eng env cuda reqs sched = xs @ Call i (Generate kw) # ys"
  then have log: "event_loop eng env cuda reqs sched (\<lambda>i. NotStarted)
      = xs @ Call i (Generate kw) # ys"
    by (simp add: serve_def)
  from log show "\<exists>own rest.
      ys = map (Call i) own @ Reply i (snd (caption eng env cuda (reqs ! i))) # rest
      \<and> i \<notin> owner ` set rest"
    by (rule generate_block)
  fix j kw'
  assume "j \<noteq> i" and "Call j (Generate kw') \<in> set xs"
  with log show "Reply j (snd (caption eng env cuda (reqs ! j))) \<in> set xs"
    by (intro earlier_replied)
next
  fix i out
  assume r: "Reply i out \<in> set (serve eng env cuda reqs sched)"
  then have "i < length reqs \<and> out = snd (caption eng env cuda (reqs ! i))"
    unfolding serve_def by (rule replies_own)
  then show "i < length reqs" and "out = snd (caption eng env cuda (reqs ! i))"
    by simp_all
next
  fix i
  assume "i < length reqs" and "2 \<le> count_list sched i"
  then show "Reply i (snd (caption eng env cuda (reqs ! i)))
      \<in> set (serve eng env cuda reqs sched)"
    unfolding serve_def by (intro starts_reply) simp_all
qed

lemma example_served:
  "serve example_engine None True example_requests example_schedule
     = [Call 0 FileRead, Call 1 FileRead, Call 1 (ImageOpen ''PNG''),
        Call 1 (Processor ''<OD>'' example_image)]
       @ Call 1 (Generate example_kwargs)
       # [Call 1 (BatchDecode [[2, 0, 5, 2]] False),
          Call 1 (PostProcess ''</s><s>a cat</s>'' ''<OD>'' (4, 3)),
          Reply 1 (Returned [(''model_id'', Str ''microsoft/Florence-2-base''),
                             (''task'', Str ''<OD>''),
                             (''result'', Parsed ''<OD></s><s>a cat</s>'')]),
          Call 0 (ImageOpen ''PNG''),
          Call 0 (Processor ''<CAPTION>'' example_image),
          Call 0 (Generate example_kwargs),
          Call 0 (BatchDecode [[2, 0, 5, 2]] False),
          Call 0 (PostProcess ''</s><s>a cat</s>'' ''<CAPTION>'' (4, 3)),
          Reply 0 (Returned [(''model_id'', Str ''microsoft/Florence-2-base''),
                             (''task'', Str ''<CAPTION>''),
                             (''result'', Parsed ''<CAPTION></s><s>a cat</s>'')])]"
  by (simp add: serve_def example_requests_def example_schedule_def caption_start_def
      caption_resume_def caption_example caption_od_example)

theorem generate_calls_serialized_witness:
  "serve example_engine None True example_requests example_schedule
     = [Call 0 FileRead, Call 1 FileRead, Call 1 (ImageOpen ''PNG''),
        Call 1 (Processor ''<OD>'' example_image)]
       @ Call 1 (Generate example_kwargs)
       # [Call 1 (BatchDecode [[2, 0, 5, 2]] False),
          Call 1 (PostProcess ''</s><s>a cat</s>'' ''<OD>'' (4, 3)),
          Reply 1 (Returned [(''model_id'', Str ''microsoft/Florence-2-base''),
                             (''task'', Str ''<OD>''),
                             (''result'', Parsed ''<OD></s><s>a cat</s>'')]),
          Call 0 (ImageOpen ''PNG''),
          Call 0 (Processor ''<CAPTION>'' example_image),
          Call 0 (Generate example_kwargs),
          Call 0 (BatchDecode [[2, 0, 5, 2]] False),
          Call 0 (PostProcess ''</s><s>a cat</s>'' ''<CAPTION>'' (4, 3)),
          Reply 0 (Returned [(''model_id'', Str ''microsoft/Florence-2-base''),
                             (''task'', Str ''<CAPTION>''),
                             (''result'', Parsed ''<CAPTION></s><s>a cat</s>'')])]
   \<and> (\<exists>own rest.
        [Call 1 (BatchDecode [[2, 0, 5, 2]] False),
         Call 1 (PostProcess ''</s><s>a cat</s>'' ''<OD>'' (4, 3)),
         Reply 1 (Returned [(''model_id'', Str ''microsoft/Florence-2-base''),
                            (''task'', Str ''<OD>''),
                            (''result'', Parsed ''<OD></s><s>a cat</s>'')]),
         Call 0 (ImageOpen ''PNG''),
         Call 0 (Processor ''<CAPTION>'' example_image),
         Call 0 (Generate example_kwargs),
         Call 0 (BatchDecode [[2, 0, 5, 2]] False),
         Call 0 (PostProcess ''</s><s>a cat</s>'' ''<CAPTION>'' (4, 3)),
         Reply 0 (Returned [(''model_id'', Str ''microsoft/Florence-2-base''),
                            (''task'', Str ''<CAPTION>''),
                            (''result'', Parsed ''<CAPTION></s><s>a cat</s>'')])]
        = map (Call 1) own
          @ Reply 1 (snd (caption example_engine None True (example_requests ! 1))) # rest
      \<and> 1 \<notin> owner ` set rest)
   \<and> (0::nat) < length example_requests
   \<and> 2 \<le> count_list example_schedule 0
   \<and> Reply 0 (snd (caption example_engine None True (example_requests ! 0)))
       \<in> set (serve example_engine None True example_requests example_schedule)"
proof -
  note main = generate_calls_serialized
    [of example_engine None True example_requests example_schedule]
  note block = main [THEN conjunct1, rule_format, OF example_served, THEN conjunct1]
  have l: "(0::nat) < length example_requests"
    by (simp add: example_requests_def)
  have c: "2 \<le> count_list example_schedule 0"
    by (simp add: example_schedule_def)
  note reply = main [THEN conjunct2, THEN conjunct2, rule_format, OF l c]
  show ?thesis
    using example_served block l c reply by (intro conjI)
qed

section \<open>Properties of the review tool\<close>

lemma dict_get_set:
  "dict_get (dict_set k v d) k' = (if k' = k then Some v else dict_get d k')"
  by (simp add: dict_get_def dict_set_def update_conv')

lemma dict_get_setdefault_present:
  "dict_get d k' = Some v \<Longrightarrow> dict_get (setdefault k w d) k' = Some v"
  by (cases "dict_get d k") (auto simp: setdefault_def dict_get_set)

lemma dict_get_setdefault_other:
  "k' \<noteq> k \<Longrightarrow> dict_get (setdefault k w d) k' = dict_get d k'"
  by (cases "dict_get d k") (auto simp: setdefault_def dict_get_set)

lemma clamp_index_bounds:
  "0 < n \<Longrightarrow> 0 \<le> clamp_index idx n \<and> clamp_index idx n < n"
  by (simp add: clamp_index_def)

lemma clamp_index_idem:
  "0 \<le> i \<Longrightarrow> i < n \<Longrightarrow> clamp_index i n = i"
  by (simp add: clamp_index_def)

lemma clamp_index_twice:
  "0 < n \<Longrightarrow> clamp_index (clamp_index j n) n = clamp_index j n"
  using clamp_index_bounds [of n j] by (simp add: clamp_index_idem)

lemma clamp_index_next_last:
  "0 < n \<Longrightarrow> clamp_index (clamp_index (n - 1) n + 1) n = n - 1"
  by (simp add: clamp_index_def)

lemma clamp_index_prev_first:
  "0 < n \<Longrightarrow> clamp_index (clamp_index 0 n - 1) n = 0"
  by (simp add: clamp_index_def)

lemma len_pos: "xs \<noteq> [] \<Longrightarrow> 0 < len xs"
  by (simp add: len_def)

lemma py_index_in_range:
  "0 \<le> i \<Longrightarrow> i < len xs \<Longrightarrow> py_index xs i = Inr (xs ! nat i)"
  by (simp add: py_index_def py_pos_def)

lemma get_record_nonempty:
  assumes "DATA st \<noteq> []"
  shows "get_record st idx
    = Inr (Some (DATA st ! nat (clamp_index idx (len (DATA st)))),
           clamp_index idx (len (DATA st)))"
proof -
  from assms have "0 < len (DATA st)" by (rule len_pos)
  then have "0 \<le> clamp_index idx (len (DATA st)) \<and> clamp_index idx (len (DATA st)) < len (DATA st)"
    by (rule clamp_index_bounds)
  then have "py_index (DATA st) (clamp_index idx (len (DATA st)))
      = Inr (DATA st ! nat (clamp_index idx (len (DATA st))))"
    by (simp add: py_index_in_range)
  with assms show ?thesis by (simp add: get_record_def Let_def)
qed

lemma show_record_nonempty:
  assumes "DATA st \<noteq> []"
  shows "\<exists>out. show_record os st idx dflt stat btn = Inr out
     \<and> out_idx out = clamp_index idx (len (DATA st))"
  by (simp add: show_record_def get_record_nonempty [OF assms])

lemma nav_empty:
  "DATA st = [] \<Longrightarrow> fst (nav os direction caption_text idx st) = st"
  by (simp add: nav_def)

text \<open>
  On a non-empty dataset \<open>nav\<close> stores the caption and then saves; what it does next
  depends on the two writes alone.
\<close>

lemma nav_stores:
  assumes ne: "DATA st \<noteq> []"
    and i_def: "i = clamp_index idx (len (DATA st))"
    and data1_def: "data1 = (DATA st)[nat i :=
        dict_set ''final_caption'' (strip caption_text) (DATA st ! nat i)]"
  shows "nav os direction caption_text idx st =
     (case save_files os data1 (JSON_PATH st) (CSV_PATH st) (st\<lparr>DATA := data1\<rparr>) of
        (st1, Some e) \<Rightarrow> (st1, Inl e)
      | (st1, None) \<Rightarrow>
          (st1,
           if direction = ''next'' then
             show_record os st1 (clamp_index (i + 1) (len data1)) (Some [])
               (Saved (clock os)) True
           else if direction = ''prev'' then
             show_record os st1 (clamp_index (i - 1) (len data1)) (Some [])
               (Saved (clock os)) True
           else if direction = ''first'' then
             show_record os st1 0 (Some []) (Saved (clock os)) True
           else if direction = ''last'' then
             show_record os st1 (len data1 - 1) (Some []) (Saved (clock os)) True
           else if direction = ''end'' then
             show_record os st1 i None SessionEnded False
           else
             show_record os st1 i (Some []) (Saved (clock os)) True))"
proof -
  from ne have pos: "0 < len (DATA st)" by (rule len_pos)
  then have b: "0 \<le> i" "i < len (DATA st)"
    unfolding i_def using clamp_index_bounds by blast+
  have store: "store_record (DATA st) i
      (dict_set ''final_caption'' (strip caption_text) (DATA st ! nat i)) = data1"
    using b by (simp add: store_record_def py_pos_def data1_def)
  have "nav os direction caption_text idx st =
     (let data1 = store_record (DATA st) i
                    (dict_set ''final_caption'' (strip caption_text) (DATA st ! nat i))
      in case save_files os data1 (JSON_PATH st) (CSV_PATH st) (st\<lparr>DATA := data1\<rparr>) of
           (st1, Some e) \<Rightarrow> (st1, Inl e)
         | (st1, None) \<Rightarrow>
             (st1,
              if direction = ''next'' then
                show_record os st1 (clamp_index (i + 1) (len data1)) (Some [])
                  (Saved (clock os)) True
              else if direction = ''prev'' then
                show_record os st1 (clamp_index (i - 1) (len data1)) (Some [])
                  (Saved (clock os)) True
              else if direction = ''first'' then
                show_record os st1 0 (Some []) (Saved (clock os)) True
              else if direction = ''last'' then
                show_record os st1 (len data1 - 1) (Some []) (Saved (clock os)) True
              else if direction = ''end'' then
                show_record os st1 i None SessionEnded False
              else
                show_record os st1 i (Some []) (Saved (clock os)) True))"
    unfolding nav_def get_record_nonempty [OF ne] i_def [symmetric]
    using ne by simp
  then show ?thesis
    unfolding store Let_def .
qed

lemma nav_json_fails:
  assumes ne: "DATA st \<noteq> []"
    and i_def: "i = clamp_index idx (len (DATA st))"
    and data1_def: "data1 = (DATA st)[nat i :=
        dict_set ''final_caption'' (strip caption_text) (DATA st ! nat i)]"
    and json: "write_error os (JSON_PATH st) (JsonFile data1) = Some e"
  shows "nav os direction caption_text idx st = (st\<lparr>DATA := data1\<rparr>, Inl e)"
  unfolding nav_stores [OF ne i_def data1_def]
  using json by (simp add: save_files_def)

lemma nav_csv_fails:
  assumes ne: "DATA st \<noteq> []"
    and i_def: "i = clamp_index idx (len (DATA st))"
    and data1_def: "data1 = (DATA st)[nat i :=
        dict_set ''final_caption'' (strip caption_text) (DATA st ! nat i)]"
    and json: "write_error os (JSON_PATH st) (JsonFile data1) = None"
    and csv: "write_error os (CSV_PATH st) (CsvFile fieldnames (map csv_row data1)) = Some e"
  shows "nav os direction caption_text idx st
    = (st\<lparr>DATA := data1, written := written st @ [(JSON_PATH st, JsonFile data1)]\<rparr>, Inl e)"
  unfolding nav_stores [OF ne i_def data1_def]
  using json csv by (simp add: save_files_def)

lemma nav_saved:
  assumes ne: "DATA st \<noteq> []"
    and i_def: "i = clamp_index idx (len (DATA st))"
    and data1_def: "data1 = (DATA st)[nat i :=
        dict_set ''final_caption'' (strip caption_text) (DATA st ! nat i)]"
    and json: "write_error os (JSON_PATH st) (JsonFile data1) = None"
    and csv: "write_error os (CSV_PATH st) (CsvFile fieldnames (map csv_row data1)) = None"
    and st1_def: "st1 = st\<lparr>DATA := data1,
        written := written st @ [(JSON_PATH st, JsonFile data1),
                                 (CSV_PATH st, CsvFile fieldnames (map csv_row data1))]\<rparr>"
  shows "\<exists>out. nav os direction caption_text idx st = (st1, Inr out)
     \<and> out_idx out =
          (if direction = ''next'' then clamp_index (i + 1) (len (DATA st))
           else if direction = ''prev'' then clamp_index (i - 1) (len (DATA st))
           else if direction = ''first'' then 0
           else if direction = ''last'' then len (DATA st) - 1
           else i)"
proof -
  from ne have pos: "0 < len (DATA st)" by (rule len_pos)
  then have b: "0 \<le> i" "i < len (DATA st)"
    unfolding i_def using clamp_index_bounds by blast+
  have save: "save_files os data1 (JSON_PATH st) (CSV_PATH st) (st\<lparr>DATA := data1\<rparr>)
      = (st1, None)"
    using json csv by (simp add: save_files_def st1_def)
  have ne1: "DATA st1 \<noteq> []" and len1: "len data1 = len (DATA st)"
    and d1: "DATA st1 = data1"
    using ne by (simp_all add: st1_def data1_def len_def)
  have sr: "\<exists>out. show_record os st1 j dflt stat btn = Inr out
      \<and> out_idx out = clamp_index j (len (DATA st))" for j dflt stat btn
    using show_record_nonempty [OF ne1, of os j dflt stat btn] by (simp add: d1 len1)
  have t0: "clamp_index 0 (len (DATA st)) = 0"
    and tl: "clamp_index (len (DATA st) - 1) (len (DATA st)) = len (DATA st) - 1"
    and ti: "clamp_index i (len (DATA st)) = i"
    using pos b by (simp_all add: clamp_index_idem)
  have tn: "clamp_index (clamp_index (i + 1) (len (DATA st))) (len (DATA st))
        = clamp_index (i + 1) (len (DATA st))"
    and tp: "clamp_index (clamp_index (i - 1) (len (DATA st))) (len (DATA st))
        = clamp_index (i - 1) (len (DATA st))"
    using pos by (simp_all add: clamp_index_twice)
  have "\<exists>out. show_record os st1 j dflt stat btn = Inr out \<and> out_idx out = j"
    if "clamp_index j (len (DATA st)) = j" for j dflt stat btn
    using sr [of j dflt stat btn] that by simp
  then show ?thesis
    unfolding nav_stores [OF ne i_def data1_def] save
    using t0 tl ti tn tp by (simp add: len1)
qed

lemma nav_data:
  assumes ne: "DATA st \<noteq> []"
    and i_def: "i = clamp_index idx (len (DATA st))"
    and data1_def: "data1 = (DATA st)[nat i :=
        dict_set ''final_caption'' (strip caption_text) (DATA st ! nat i)]"
  shows "DATA (fst (nav os direction caption_text idx st)) = data1"
proof (cases "write_error os (JSON_PATH st) (JsonFile data1)")
  case (Some e)
  from nav_json_fails [OF ne i_def data1_def Some] show ?thesis by simp
next
  case None
  note json = this
  show ?thesis
  proof (cases "write_error os (CSV_PATH st) (CsvFile fieldnames (map csv_row data1))")
    case (Some e)
    from nav_csv_fails [OF ne i_def data1_def json Some] show ?thesis by simp
  next
    case None
    from nav_saved [OF ne i_def data1_def json None refl, of direction]
    show ?thesis by auto
  qed
qed

lemma nav_frame:
  "length (DATA (fst (nav os direction caption_text idx st))) = length (DATA st)
   \<and> (\<forall>j k. j < length (DATA st) \<longrightarrow> k \<noteq> ''final_caption'' \<longrightarrow>
         dict_get (DATA (fst (nav os direction caption_text idx st)) ! j) k
           = dict_get (DATA st ! j) k)"
proof (cases "DATA st = []")
  case True
  then show ?thesis by (simp add: nav_empty)
next
  case False
  define i where "i = clamp_index idx (len (DATA st))"
  define data1 where "data1 = (DATA st)[nat i :=
           dict_set ''final_caption'' (strip caption_text) (DATA st ! nat i)]"
  have d: "DATA (fst (nav os direction caption_text idx st)) = data1"
    using False i_def data1_def by (rule nav_data)
  have "dict_get (data1 ! j) k = dict_get (DATA st ! j) k"
    if "j < length (DATA st)" "k \<noteq> ''final_caption''" for j k
    using that unfolding data1_def
    by (cases "j = nat i") (simp_all add: dict_get_set)
  then show ?thesis
    unfolding d by (simp add: data1_def)
qed

lemma load_captions_present:
  assumes "j < length data" and "dict_get (data ! j) k = Some v"
  shows "dict_get (load_captions data ! j) k = Some v"
  using assms
  by (simp add: load_captions_def Let_def dict_get_setdefault_present)

lemma load_captions_other:
  assumes "j < length data" and "k \<noteq> ''raw_caption''" and "k \<noteq> ''final_caption''"
  shows "dict_get (load_captions data ! j) k = dict_get (data ! j) k"
  using assms
  by (simp add: load_captions_def Let_def dict_get_setdefault_other)

lemma example_loaded:
  "load_captions example_data =
     [[(''image'', u ''/data/a.png''), (''raw_caption'', u ''a cat''),
       (''final_caption'', u ''a cat'')],
      [(''image'', u ''/data/b.png''), (''raw_caption'', u ''a dog''),
       (''final_caption'', u ''a brown dog'')]]"
  by (simp add: load_captions_def example_data_def setdefault_def dict_get_def dict_set_def
      get_or_def)


lemma example_state_data:
  "DATA example_state =
     [[(''image'', u ''/data/a.png''), (''raw_caption'', u ''a cat''),
       (''final_caption'', u ''a cat'')],
      [(''image'', u ''/data/b.png''), (''raw_caption'', u ''a dog''),
       (''final_caption'', u ''a brown dog'')]]"
  by (simp add: example_state_def example_loaded)

lemma example_state_len: "len (DATA example_state) = 2"
  by (simp add: example_state_data len_def)




lemma strip_unicode_example:
  "strip ([0xA0, 0x2003] @ u ''a cat'' @ [0x85, 0x3000, 10]) = u ''a cat''"
  by (simp add: strip_def py_isspace_def u_def)




text \<open>
  C9. Loading keeps the number of records, keeps every value a record already has (an
  existing \<open>raw_caption\<close> and the image path among them) and leaves every key other
  than \<open>raw_caption\<close> and \<open>final_caption\<close> as it was, present or absent. A navigation
  step, whether it returns or raises, keeps the number of records and leaves every key
  other than \<open>final_caption\<close> of every record as it was.
\<close>

theorem records_frame:
  "length (load_captions data) = length data
   \<and> (\<forall>j k v. j < length data \<longrightarrow> dict_get (data ! j) k = Some v \<longrightarrow>
          dict_get (load_captions data ! j) k = Some v)
   \<and> (\<forall>j k. j < length data \<longrightarrow> k \<noteq> ''raw_caption'' \<longrightarrow> k \<noteq> ''final_caption'' \<longrightarrow>
          dict_get (load_captions data ! j) k = dict_get (data ! j) k)
   \<and> length (DATA (fst (nav os direction caption_text idx st))) = length (DATA st)
   \<and> (\<forall>j k. j < length (DATA st) \<longrightarrow> k \<noteq> ''final_caption'' \<longrightarrow>
          dict_get (DATA (fst (nav os direction caption_text idx st)) ! j) k
            = dict_get (DATA st ! j) k)"
proof -
  have a: "length (load_captions data) = length data"
    by (simp add: load_captions_def)
  have b: "\<forall>j k v. j < length data \<longrightarrow> dict_get (data ! j) k = Some v \<longrightarrow>
          dict_get (load_captions data ! j) k = Some v"
    using load_captions_present by blast
  have c: "\<forall>j k. j < length data \<longrightarrow> k \<noteq> ''raw_caption'' \<longrightarrow> k \<noteq> ''final_caption'' \<longrightarrow>
          dict_get (load_captions data ! j) k = dict_get (data ! j) k"
    using load_captions_other by blast
  note n = nav_frame [of os direction caption_text idx st]
  from a b c n [THEN conjunct1] n [THEN conjunct2] show ?thesis
    by (intro conjI)
qed

theorem records_frame_witness:
  "(1::nat) < length example_data
   \<and> dict_get (example_data ! 1) ''raw_caption'' = Some (u ''a dog'')
   \<and> dict_get (load_captions example_data ! 1) ''raw_caption'' = Some (u ''a dog'')
   \<and> dict_get (load_captions example_data ! 1) ''image'' = dict_get (example_data ! 1) ''image''
   \<and> length (DATA (fst (nav example_os ''last'' (u ''a puppy'') 5 example_state)))
       = length (DATA example_state)
   \<and> dict_get (DATA (fst (nav example_os ''last'' (u ''a puppy'') 5 example_state)) ! 1)
        ''raw_caption'' = Some (u ''a dog'')
   \<and> dict_get (DATA (fst (nav no_out_os ''last'' (u ''a puppy'') 5 example_state)) ! 1)
        ''image'' = Some (u ''/data/b.png'')"
proof -
  note main = records_frame [of example_data example_os "''last''" "u ''a puppy''" 5 example_state]
  note main2 = records_frame [of example_data no_out_os "''last''" "u ''a puppy''" 5 example_state]
  have l: "(1::nat) < length example_data"
    by (simp add: example_data_def)
  have r: "dict_get (example_data ! 1) ''raw_caption'' = Some (u ''a dog'')"
    by (simp add: example_data_def dict_get_def)
  have l2: "(1::nat) < length (DATA example_state)"
    by (simp add: example_state_data)
  have r2: "dict_get (DATA example_state ! 1) ''raw_caption'' = Some (u ''a dog'')"
    and i2: "dict_get (DATA example_state ! 1) ''image'' = Some (u ''/data/b.png'')"
    by (simp_all add: example_state_data dict_get_def)
  note pres = main [THEN conjunct2, THEN conjunct1, rule_format]
  note other = main [THEN conjunct2, THEN conjunct2, THEN conjunct1, rule_format]
  note len = main [THEN conjunct2, THEN conjunct2, THEN conjunct2, THEN conjunct1]
  note fr = main [THEN conjunct2, THEN conjunct2, THEN conjunct2, THEN conjunct2, rule_format]
  note fr2 = main2 [THEN conjunct2, THEN conjunct2, THEN conjunct2, THEN conjunct2, rule_format]
  have a: "dict_get (load_captions example_data ! 1) ''raw_caption'' = Some (u ''a dog'')"
    using l r by (rule pres)
  have b: "dict_get (load_captions example_data ! 1) ''image''
      = dict_get (example_data ! 1) ''image''"
    using l by (rule other) simp_all
  have c: "dict_get (DATA (fst (nav example_os ''last'' (u ''a puppy'') 5 example_state)) ! 1)
        ''raw_caption'' = Some (u ''a dog'')"
    using fr [OF l2, of "''raw_caption''"] r2 by simp
  have d: "dict_get (DATA (fst (nav no_out_os ''last'' (u ''a puppy'') 5 example_state)) ! 1)
        ''image'' = Some (u ''/data/b.png'')"
    using fr2 [OF l2, of "''image''"] i2 by simp
  show ?thesis
    using l r a b len c d by (intro conjI)
qed

text \<open>
  C10. \<open>clamp_index\<close> returns a value between \<open>0\<close> and \<open>length - 1\<close> when the
  length is positive and returns \<open>0\<close> for the length \<open>0\<close>, for every integer index.
  On a non-empty dataset \<open>get_record\<close> reads inside the list and raises nothing; for
  every index and direction the position \<open>nav\<close> returns lies inside the list, and an
  exception that ends \<open>nav\<close> is one raised by a file write, never one of indexing.
  Where the writes go through, \<open>next\<close> at the last record stays at the last record
  and \<open>prev\<close> at the first record stays at the first.
\<close>

theorem index_in_bounds:
  "(0 < n \<longrightarrow> 0 \<le> clamp_index idx n \<and> clamp_index idx n \<le> n - 1)
   \<and> clamp_index idx 0 = 0
   \<and> (DATA st \<noteq> [] \<longrightarrow>
        (\<exists>i. get_record st idx = Inr (Some (DATA st ! nat i), i)
            \<and> 0 \<le> i \<and> i < len (DATA st)
            \<and> py_index (DATA st) i = Inr (DATA st ! nat i)))
   \<and> (DATA st \<noteq> [] \<longrightarrow>
        (\<forall>out. snd (nav os direction caption_text idx st) = Inr out \<longrightarrow>
            0 \<le> out_idx out \<and> out_idx out < len (DATA st))
      \<and> (\<forall>e. snd (nav os direction caption_text idx st) = Inl e \<longrightarrow>
            (\<exists>path content. write_error os path content = Some e))
      \<and> ((\<forall>path content. write_error os path content = None) \<longrightarrow>
            (\<exists>out. snd (nav os direction caption_text idx st) = Inr out)))
   \<and> (DATA st \<noteq> [] \<longrightarrow> (\<forall>path content. write_error os path content = None) \<longrightarrow>
        (\<exists>out. snd (nav os ''next'' caption_text (len (DATA st) - 1) st) = Inr out
            \<and> out_idx out = len (DATA st) - 1))
   \<and> (DATA st \<noteq> [] \<longrightarrow> (\<forall>path content. write_error os path content = None) \<longrightarrow>
        (\<exists>out. snd (nav os ''prev'' caption_text 0 st) = Inr out
            \<and> out_idx out = 0))"
proof -
  have c1: "0 < n \<longrightarrow> 0 \<le> clamp_index idx n \<and> clamp_index idx n \<le> n - 1"
    by (auto simp: clamp_index_def)
  have c0: "clamp_index idx 0 = 0"
    by (simp add: clamp_index_def)
  have g: "\<exists>i. get_record st idx = Inr (Some (DATA st ! nat i), i)
            \<and> 0 \<le> i \<and> i < len (DATA st)
            \<and> py_index (DATA st) i = Inr (DATA st ! nat i)" if ne: "DATA st \<noteq> []"
  proof -
    from ne have "0 < len (DATA st)" by (rule len_pos)
    then have b: "0 \<le> clamp_index idx (len (DATA st))
        \<and> clamp_index idx (len (DATA st)) < len (DATA st)"
      by (rule clamp_index_bounds)
    with get_record_nonempty [OF ne, of idx] show ?thesis
      by (auto simp: py_index_in_range)
  qed
  have cases: "(\<exists>e path content. write_error os' path content = Some e
          \<and> snd (nav os' d caption_text j st) = Inl e)
      \<or> (\<exists>out. snd (nav os' d caption_text j st) = Inr out
          \<and> out_idx out =
              (if d = ''next''
               then clamp_index (clamp_index j (len (DATA st)) + 1) (len (DATA st))
               else if d = ''prev''
               then clamp_index (clamp_index j (len (DATA st)) - 1) (len (DATA st))
               else if d = ''first'' then 0
               else if d = ''last'' then len (DATA st) - 1
               else clamp_index j (len (DATA st))))"
    if ne: "DATA st \<noteq> []" for os' d j
  proof -
    define data1 where "data1 = (DATA st)[nat (clamp_index j (len (DATA st))) :=
        dict_set ''final_caption'' (strip caption_text)
          (DATA st ! nat (clamp_index j (len (DATA st))))]"
    show ?thesis
    proof (cases "write_error os' (JSON_PATH st) (JsonFile data1)")
      case (Some e)
      from nav_json_fails [OF ne refl data1_def Some, of d] Some show ?thesis
        by (intro disjI1 exI [of _ e] exI [of _ "JSON_PATH st"] exI [of _ "JsonFile data1"])
          simp
    next
      case None
      note json = this
      show ?thesis
      proof (cases "write_error os' (CSV_PATH st) (CsvFile fieldnames (map csv_row data1))")
        case (Some e)
        from nav_csv_fails [OF ne refl data1_def json Some, of d] Some show ?thesis
          by (intro disjI1 exI [of _ e] exI [of _ "CSV_PATH st"]
              exI [of _ "CsvFile fieldnames (map csv_row data1)"]) simp
      next
        case None
        from nav_saved [OF ne refl data1_def json None refl, of d]
        obtain out where "nav os' d caption_text j st
            = (st\<lparr>DATA := data1,
                  written := written st @ [(JSON_PATH st, JsonFile data1),
                     (CSV_PATH st, CsvFile fieldnames (map csv_row data1))]\<rparr>, Inr out)"
          and "out_idx out =
              (if d = ''next''
               then clamp_index (clamp_index j (len (DATA st)) + 1) (len (DATA st))
               else if d = ''prev''
               then clamp_index (clamp_index j (len (DATA st)) - 1) (len (DATA st))
               else if d = ''first'' then 0
               else if d = ''last'' then len (DATA st) - 1
               else clamp_index j (len (DATA st)))"
          by (elim exE conjE)
        then show ?thesis
          by (intro disjI2 exI [of _ out]) simp
      qed
    qed
  qed
  have n1: "(\<forall>out. snd (nav os direction caption_text idx st) = Inr out \<longrightarrow>
            0 \<le> out_idx out \<and> out_idx out < len (DATA st))
      \<and> (\<forall>e. snd (nav os direction caption_text idx st) = Inl e \<longrightarrow>
            (\<exists>path content. write_error os path content = Some e))
      \<and> ((\<forall>path content. write_error os path content = None) \<longrightarrow>
            (\<exists>out. snd (nav os direction caption_text idx st) = Inr out))"
    if ne: "DATA st \<noteq> []"
  proof -
    from ne have pos: "0 < len (DATA st)" by (rule len_pos)
    from cases [OF ne, of os direction idx] show ?thesis
    proof (elim disjE exE conjE)
      fix e path content
      assume "write_error os path content = Some e"
        and "snd (nav os direction caption_text idx st) = Inl e"
      then show ?thesis by auto
    next
      fix out
      assume s: "snd (nav os direction caption_text idx st) = Inr out"
        and o: "out_idx out =
              (if direction = ''next''
               then clamp_index (clamp_index idx (len (DATA st)) + 1) (len (DATA st))
               else if direction = ''prev''
               then clamp_index (clamp_index idx (len (DATA st)) - 1) (len (DATA st))
               else if direction = ''first'' then 0
               else if direction = ''last'' then len (DATA st) - 1
               else clamp_index idx (len (DATA st)))"
      from pos clamp_index_bounds [OF pos]
      have "0 \<le> out_idx out \<and> out_idx out < len (DATA st)"
        unfolding o by simp
      with s show ?thesis by auto
    qed
  qed
  have n2: "\<exists>out. snd (nav os ''next'' caption_text (len (DATA st) - 1) st) = Inr out
            \<and> out_idx out = len (DATA st) - 1"
    if ne: "DATA st \<noteq> []" and w: "\<forall>path content. write_error os path content = None"
  proof -
    from ne have pos: "0 < len (DATA st)" by (rule len_pos)
    from cases [OF ne, of os "''next''" "len (DATA st) - 1"] w
    obtain out where s: "snd (nav os ''next'' caption_text (len (DATA st) - 1) st) = Inr out"
      and o: "out_idx out
         = clamp_index (clamp_index (len (DATA st) - 1) (len (DATA st)) + 1) (len (DATA st))"
      by auto
    from pos have "out_idx out = len (DATA st) - 1"
      unfolding o by (simp add: clamp_index_next_last)
    with s show ?thesis by (intro exI [of _ out] conjI)
  qed
  have n3: "\<exists>out. snd (nav os ''prev'' caption_text 0 st) = Inr out \<and> out_idx out = 0"
    if ne: "DATA st \<noteq> []" and w: "\<forall>path content. write_error os path content = None"
  proof -
    from ne have pos: "0 < len (DATA st)" by (rule len_pos)
    from cases [OF ne, of os "''prev''" 0] w
    obtain out where s: "snd (nav os ''prev'' caption_text 0 st) = Inr out"
      and o: "out_idx out
         = clamp_index (clamp_index 0 (len (DATA st)) - 1) (len (DATA st))"
      by auto
    from pos have "out_idx out = 0"
      unfolding o by (simp add: clamp_index_prev_first)
    with s show ?thesis by (intro exI [of _ out] conjI)
  qed
  from g have g': "DATA st \<noteq> [] \<longrightarrow>
        (\<exists>i. get_record st idx = Inr (Some (DATA st ! nat i), i)
            \<and> 0 \<le> i \<and> i < len (DATA st)
            \<and> py_index (DATA st) i = Inr (DATA st ! nat i))"
    by (intro impI)
  from n1 have n1': "DATA st \<noteq> [] \<longrightarrow>
        (\<forall>out. snd (nav os direction caption_text idx st) = Inr out \<longrightarrow>
            0 \<le> out_idx out \<and> out_idx out < len (DATA st))
      \<and> (\<forall>e. snd (nav os direction caption_text idx st) = Inl e \<longrightarrow>
            (\<exists>path content. write_error os path content = Some e))
      \<and> ((\<forall>path content. write_error os path content = None) \<longrightarrow>
            (\<exists>out. snd (nav os direction caption_text idx st) = Inr out))"
    by (intro impI)
  from n2 have n2': "DATA st \<noteq> [] \<longrightarrow> (\<forall>path content. write_error os path content = None) \<longrightarrow>
        (\<exists>out. snd (nav os ''next'' caption_text (len (DATA st) - 1) st) = Inr out
            \<and> out_idx out = len (DATA st) - 1)"
    by (intro impI)
  from n3 have n3': "DATA st \<noteq> [] \<longrightarrow> (\<forall>path content. write_error os path content = None) \<longrightarrow>
        (\<exists>out. snd (nav os ''prev'' caption_text 0 st) = Inr out
            \<and> out_idx out = 0)"
    by (intro impI)
  from c1 c0 g' n1' n2' n3' show ?thesis by (intro conjI)
qed

theorem index_in_bounds_witness:
  "(0::int) < 2
   \<and> 0 \<le> clamp_index 7 2 \<and> clamp_index 7 2 \<le> 2 - 1
   \<and> DATA example_state \<noteq> []
   \<and> len (DATA example_state) = 2
   \<and> write_error example_os (u ''/data/captions.json'') (JsonFile []) = None
   \<and> (\<exists>i. get_record example_state 7 = Inr (Some (DATA example_state ! nat i), i)
         \<and> 0 \<le> i \<and> i < len (DATA example_state)
         \<and> py_index (DATA example_state) i = Inr (DATA example_state ! nat i))
   \<and> (\<exists>out. snd (nav example_os ''last'' (u ''a dog'') 7 example_state) = Inr out
         \<and> 0 \<le> out_idx out \<and> out_idx out < len (DATA example_state))
   \<and> (\<exists>out. snd (nav example_os ''next'' (u ''a dog'') (len (DATA example_state) - 1)
                  example_state) = Inr out
         \<and> out_idx out = len (DATA example_state) - 1)
   \<and> (\<exists>out. snd (nav example_os ''prev'' (u ''a dog'') 0 example_state) = Inr out
         \<and> out_idx out = 0)"
proof -
  note main = index_in_bounds [of 2 7 example_state example_os "''last''" "u ''a dog''"]
  have pos: "(0::int) < 2" by simp
  have ne: "DATA example_state \<noteq> []"
    by (simp add: example_state_data)
  have w: "\<forall>path content. write_error example_os path content = None"
    by (simp add: example_os_def)
  have w0: "write_error example_os (u ''/data/captions.json'') (JsonFile []) = None"
    by (simp add: example_os_def)
  note c = main [THEN conjunct1, rule_format, OF pos]
  note g = main [THEN conjunct2, THEN conjunct2, THEN conjunct1, rule_format, OF ne]
  note n1 = main [THEN conjunct2, THEN conjunct2, THEN conjunct2, THEN conjunct1,
      rule_format, OF ne]
  note n2 = main [THEN conjunct2, THEN conjunct2, THEN conjunct2, THEN conjunct2,
      THEN conjunct1, rule_format, OF ne w [rule_format]]
  note n3 = main [THEN conjunct2, THEN conjunct2, THEN conjunct2, THEN conjunct2,
      THEN conjunct2, rule_format, OF ne w [rule_format]]
  from c have c1: "0 \<le> clamp_index 7 2" and c2: "clamp_index 7 2 \<le> 2 - 1"
    by simp_all
  from n1 [THEN conjunct2, THEN conjunct2, rule_format, OF w [rule_format]]
  obtain out where s: "snd (nav example_os ''last'' (u ''a dog'') 7 example_state) = Inr out"
    by (elim exE)
  from n1 [THEN conjunct1, rule_format, OF s]
  have b: "0 \<le> out_idx out" "out_idx out < len (DATA example_state)"
    by simp_all
  have n1': "\<exists>out. snd (nav example_os ''last'' (u ''a dog'') 7 example_state) = Inr out
         \<and> 0 \<le> out_idx out \<and> out_idx out < len (DATA example_state)"
    using s b by (intro exI [of _ out] conjI)
  show ?thesis
    using pos c1 c2 ne example_state_len w0 g n1' n2 n3 by (intro conjI)
qed


end
